theory Spec2Isabelle
  imports Main "HOL-Library.AList"
begin

section \<open>Python strings and exceptions\<close>

text \<open>
  The module \<^verbatim>\<open>aiohttp_ip_rotator/rotator.py\<close> defines one class,
  \<^verbatim>\<open>RotatingClientSession\<close>.  Its methods are embedded below as functions over
  explicit state.  Exceptions are values of \<open>py_exn\<close>; a computation that may
  raise returns \<open>py_exn + 'a\<close> with \<open>Inl\<close> for the exception.
  Verbose printing (\<^verbatim>\<open>_print_if_verbose\<close>) only writes to standard output and is
  left out of the model.
\<close>

datatype py_exn =
    ValueError string
  | RuntimeError
  | IndexError
  | KeyError
  | ClientError string
  | EndpointConnectionError
  | RecursionError

text \<open>\<^verbatim>\<open>s.startswith(p)\<close> and \<^verbatim>\<open>s.endswith(p)\<close>.\<close>

definition startswith :: "string \<Rightarrow> string \<Rightarrow> bool" where
  "startswith s p = (take (length p) s = p)"

definition endswith :: "string \<Rightarrow> string \<Rightarrow> bool" where
  "endswith s p = (length p \<le> length s \<and> drop (length s - length p) s = p)"

text \<open>
  \<^verbatim>\<open>s.split(sep, 1)\<close> for a non-empty separator: the text before and after the
  first occurrence of \<open>sep\<close>, or the whole string alone when \<open>sep\<close> does not occur.
\<close>

fun split_first :: "string \<Rightarrow> string \<Rightarrow> (string \<times> string) option" where
  "split_first sep [] = None"
| "split_first sep (c # cs) =
     (if startswith (c # cs) sep then Some ([], drop (length sep) (c # cs))
      else map_option (\<lambda>(a, b). (c # a, b)) (split_first sep cs))"

definition split1 :: "string \<Rightarrow> string \<Rightarrow> string list" where
  "split1 s sep = (case split_first sep s of None \<Rightarrow> [s] | Some (a, b) \<Rightarrow> [a, b])"

text \<open>List indexing \<^verbatim>\<open>xs[i]\<close> for a non-negative index; raises IndexError out of range.\<close>

definition index :: "'a list \<Rightarrow> nat \<Rightarrow> py_exn + 'a" where
  "index xs i = (if i < length xs then Inr (xs ! i) else Inl IndexError)"

text \<open>\<^verbatim>\<open>str(n)\<close> for a non-negative integer.\<close>

definition digit :: "nat \<Rightarrow> char" where
  "digit d = char_of (48 + d)"

fun str_nat :: "nat \<Rightarrow> string" where
  "str_nat n = (if n < 10 then [digit n] else str_nat (n div 10) @ [digit (n mod 10)])"

declare str_nat.simps [simp del]

section \<open>The pool: \<^verbatim>\<open>RotatingClientSession\<close>\<close>

record pool =
  target :: string
  key_id :: "string option"
  key_secret :: "string option"
  host_header :: string
  clear_all :: bool
  verbose :: bool
  wait_all_regions :: bool
  endpoints :: "string list"
  name :: string
  active :: bool
  regions :: "string list"
  closed :: bool

text \<open>
  The region catalog of \<^verbatim>\<open>__init__\<close>.  The source has no comma after
  \<^verbatim>\<open>"me-south-1"\<close>, so Python joins it with the next literal into one entry.
\<close>

definition region_catalog :: "string list" where
  "region_catalog =
     [''us-east-1'', ''us-east-2'', ''us-west-1'', ''us-west-2'',
      ''eu-west-1'', ''eu-west-2'', ''eu-west-3'', ''eu-north-1'',
      ''eu-central-1'', ''ca-central-1'', ''ap-south-1'', ''me-south-1'' @
      ''ap-northeast-3'', ''ap-northeast-2'', ''ap-southeast-1'',
      ''ap-southeast-2'', ''ap-northeast-1'', ''sa-east-1'',
      ''ap-east-1'', ''af-south-1'', ''eu-south-1'']"

text \<open>
  \<^verbatim>\<open>__init__(target, key_id, key_secret, host_header, clear_all, verbose,
  wait_all_regions)\<close>.  The trailing slash is cut before the scheme is checked;
  \<^verbatim>\<open>host_header or ...\<close> takes the default when the argument is None or empty, and
  the default (\<open>default_host\<close>, the text between \<^verbatim>\<open>://\<close> and the next slash) raises
  IndexError when the stored target has no \<^verbatim>\<open>://\<close> left.  The field \<open>closed\<close> stands for the state of the inherited
  HTTP client session.
\<close>

definition default_host :: "string \<Rightarrow> py_exn + string" where
  "default_host t =
     (case index (split1 t ''://'') 1 of
        Inl e \<Rightarrow> Inl e
      | Inr rest \<Rightarrow> index (split1 rest ''/'') 0)"

definition init ::
  "string \<Rightarrow> string option \<Rightarrow> string option \<Rightarrow> string option \<Rightarrow> bool \<Rightarrow> bool \<Rightarrow> bool
     \<Rightarrow> py_exn + pool" where
  "init tgt kid ksecret hh call verb wait =
     (let t = (if \<not> endswith tgt ''/'' then tgt else butlast tgt) in
      if \<not> startswith tgt ''http://'' \<and> \<not> startswith tgt ''https://''
      then Inl (ValueError ''Invalid URL schema'')
      else
        (case (if hh \<noteq> None \<and> hh \<noteq> Some [] then Inr (the hh) else default_host t) of
           Inl e \<Rightarrow> Inl e
         | Inr h \<Rightarrow>
             Inr \<lparr> target = t, key_id = kid, key_secret = ksecret, host_header = h,
                   clear_all = call, verbose = verb, wait_all_regions = wait,
                   endpoints = [], name = ''IP Rotator for '' @ t, active = False,
                   regions = region_catalog, closed = False \<rparr>))"

section \<open>Routing: \<^verbatim>\<open>request\<close>\<close>

text \<open>
  The two random draws of \<^verbatim>\<open>request\<close> take their entropy as an argument:
  \<^verbatim>\<open>choice(seq)\<close> is \<open>seq[randbelow(len(seq))]\<close> and \<^verbatim>\<open>randint(a, b)\<close> is
  \<open>a + randbelow(b - a + 1)\<close>, where \<open>randbelow n\<close> reduces the entropy into
  \<open>[0, n)\<close>.  \<^verbatim>\<open>choice\<close> raises IndexError on an empty sequence.
\<close>

definition randbelow :: "nat \<Rightarrow> nat \<Rightarrow> nat" where
  "randbelow seed n = seed mod n"

definition choice :: "nat \<Rightarrow> 'a list \<Rightarrow> py_exn + 'a" where
  "choice seed xs = (if xs = [] then Inl IndexError else Inr (xs ! randbelow seed (length xs)))"

definition randint :: "nat \<Rightarrow> nat \<Rightarrow> nat \<Rightarrow> nat" where
  "randint seed a b = a + randbelow seed (b - a + 1)"

text \<open>
  \<^verbatim>\<open>pack(">I", n)\<close> gives the four bytes of \<open>n\<close>, most significant first, for
  \<open>0 \<le> n < 2^32\<close> and raises otherwise (\<^verbatim>\<open>struct.error\<close>, kept as a ValueError);
  \<^verbatim>\<open>inet_ntoa\<close> renders four bytes in decimal, joined by dots.
\<close>

definition pack_I :: "nat \<Rightarrow> py_exn + nat list" where
  "pack_I n =
     (if n < 2 ^ 32
      then Inr [n div 2 ^ 24 mod 256, n div 2 ^ 16 mod 256, n div 2 ^ 8 mod 256, n mod 256]
      else Inl (ValueError ''argument out of range''))"

fun inet_ntoa :: "nat list \<Rightarrow> py_exn + string" where
  "inet_ntoa [a, b, c, d] =
     Inr (str_nat a @ ''.'' @ str_nat b @ ''.'' @ str_nat c @ ''.'' @ str_nat d)"
| "inet_ntoa _ = Inl (ValueError ''packed IP wrong length for inet_ntoa'')"

text \<open>
  The keyword argument \<^verbatim>\<open>headers\<close>: absent or None, a dict (an association list in
  insertion order), or some other object, of which only its truth value matters.
\<close>

datatype headers_arg =
    NoHeaders
  | HDict "(string \<times> string) list"
  | HOther bool

record outgoing =
  out_method :: string
  out_url :: string
  out_headers :: "(string \<times> string) list"
  out_kwargs :: "(string \<times> string) list"

text \<open>
  \<^verbatim>\<open>kwargs.get("headers") or dict()\<close>: a falsy argument (None, an empty dict, any
  falsy object) is replaced by a fresh dict; a truthy object that is not a dict
  raises.  The flag tells whether the dict is the caller's own object.
\<close>

definition headers_or_dict :: "headers_arg \<Rightarrow> py_exn + ((string \<times> string) list \<times> bool)" where
  "headers_or_dict h =
     (case h of
        NoHeaders \<Rightarrow> Inr ([], False)
      | HDict d \<Rightarrow> if d = [] then Inr ([], False) else Inr (d, True)
      | HOther truthy \<Rightarrow>
          if truthy then Inl (ValueError ''Headers must be a dictionary-like object'')
          else Inr ([], False))"

text \<open>
  \<^verbatim>\<open>request(method, url, **kwargs)\<close>.  The result pairs what the call returns or
  raises with the caller's \<^verbatim>\<open>headers\<close> object as the call leaves it: a non-empty
  dict is mutated in place.  \<open>Inr\<close> carries the arguments handed to
  \<^verbatim>\<open>super().request\<close>.  \<open>seed1\<close> feeds \<^verbatim>\<open>choice\<close>, \<open>seed2\<close> feeds \<^verbatim>\<open>randint\<close>.
\<close>

definition forwarded_header ::
  "(string \<times> string) list \<Rightarrow> nat \<Rightarrow> py_exn + string" where
  "forwarded_header hs seed2 =
     (case map_of hs ''X-Forwarded-For'' of
        Some v \<Rightarrow> if v \<noteq> [] then Inr v
                  else (case pack_I (randint seed2 1 0xffffffff) of
                          Inl e \<Rightarrow> Inl e | Inr bs \<Rightarrow> inet_ntoa bs)
      | None \<Rightarrow> (case pack_I (randint seed2 1 0xffffffff) of
                   Inl e \<Rightarrow> Inl e | Inr bs \<Rightarrow> inet_ntoa bs))"

definition request ::
  "pool \<Rightarrow> nat \<Rightarrow> nat \<Rightarrow> string \<Rightarrow> string \<Rightarrow> headers_arg \<Rightarrow> (string \<times> string) list
     \<Rightarrow> (py_exn + outgoing) \<times> headers_arg" where
  "request self seed1 seed2 method url hdrs kwargs =
     (if length (endpoints self) = 0 then (Inl RuntimeError, hdrs)
      else if \<not> startswith url ''http://'' \<and> \<not> startswith url ''https://''
      then (Inl (ValueError ''Invalid URL schema''), hdrs)
      else
        (case choice seed1 (endpoints self) of
           Inl e \<Rightarrow> (Inl e, hdrs)
         | Inr endpoint \<Rightarrow>
            (let path = (case index (split1 url ''://'') 1 of
                           Inl e \<Rightarrow> []
                         | Inr rest \<Rightarrow>
                             (case index (split1 rest ''/'') 1 of
                                Inl e \<Rightarrow> [] | Inr p \<Rightarrow> p));
                 url' = ''https://'' @ endpoint @ ''/proxy-stage/'' @ path
             in case headers_or_dict hdrs of
                  Inl e \<Rightarrow> (Inl e, hdrs)
                | Inr (h0, own) \<Rightarrow>
                   (let h1 = AList.delete ''X-Forwarded-For'' h0;
                        h2 = AList.update ''X-Host'' (host_header self) h1
                    in case forwarded_header h2 seed2 of
                         Inl e \<Rightarrow> (Inl e, if own then HDict h2 else hdrs)
                       | Inr v \<Rightarrow>
                          (let h3 = AList.update ''X-Forwarded-Header'' v h2
                           in (Inr \<lparr> out_method = method, out_url = url',
                                     out_headers = h3, out_kwargs = kwargs \<rparr>,
                               if own then HDict h3 else hdrs))))))"

section \<open>The control plane\<close>

text \<open>
  Each \<^verbatim>\<open>Session().client("apigateway", region_name=region, ...)\<close> talks to the
  API Gateway control plane.  The plane is a parameter of the model: a transition
  function over a state of type \<open>'s\<close> that answers one call with an exception or
  a reply.  The credentials are passed through unchanged and are not part of a
  call.  Every computation returns, with its result, the new state of the plane
  and the events it caused in order: the calls it made and the
  \<^verbatim>\<open>asyncio.sleep\<close> delays it took.
\<close>

datatype cp_call =
    GetRestApis string "string option"
  | CreateRestApi string string
  | GetResources string string
  | CreateResource string string string string
  | PutMethod string string string
  | PutIntegration string string string string
  | CreateDeployment string string string
  | DeleteRestApi string string

datatype api = Api (api_id: string) (api_name: "string option")

datatype reply =
    RestApis "api list" "string option"
  | Resources "string list"
  | Created string
  | Empty

datatype event = Call cp_call | Sleep nat

type_synonym 's plane = "cp_call \<Rightarrow> 's \<Rightarrow> (py_exn + reply) \<times> 's"

text \<open>
  Reading a reply as the source does: \<^verbatim>\<open>r["items"]\<close>, \<^verbatim>\<open>r.get("position", None)\<close>
  and \<^verbatim>\<open>r["id"]\<close>; a key the reply does not have raises KeyError.
\<close>

fun reply_items :: "reply \<Rightarrow> py_exn + api list" where
  "reply_items (RestApis its pos) = Inr its"
| "reply_items (Resources ids) = Inr (map (\<lambda>i. Api i None) ids)"
| "reply_items _ = Inl KeyError"

fun reply_position :: "reply \<Rightarrow> string option" where
  "reply_position (RestApis its pos) = pos"
| "reply_position _ = None"

fun reply_id :: "reply \<Rightarrow> py_exn + string" where
  "reply_id (Created i) = Inr i"
| "reply_id _ = Inl KeyError"

text \<open>The exceptions named by \<^verbatim>\<open>except (ClientError, EndpointConnectionError)\<close>.\<close>

fun is_client_or_connection_error :: "py_exn \<Rightarrow> bool" where
  "is_client_or_connection_error (ClientError code) = True"
| "is_client_or_connection_error EndpointConnectionError = True"
| "is_client_or_connection_error _ = False"

subsection \<open>\<^verbatim>\<open>_get_apis\<close>\<close>

text \<open>
  The loop \<^verbatim>\<open>while not complete\<close> with its variables \<open>position\<close> and \<open>apis\<close>;
  it runs as long as the plane hands out continuation tokens, so the function is
  partial: \<open>None\<close> stands for a loop that never ends.  An exception of the two
  named classes returns the empty list, whatever was collected before.
\<close>

partial_function (option) get_apis ::
  "'s plane \<Rightarrow> string \<Rightarrow> string option \<Rightarrow> api list \<Rightarrow> 's
     \<Rightarrow> ((py_exn + api list) \<times> 's \<times> event list) option" where
  "get_apis client region position apis s =
     (case client (GetRestApis region position) s of
        (Inl e, s') \<Rightarrow>
          if is_client_or_connection_error e
          then Some (Inr [], s', [Call (GetRestApis region position)])
          else Some (Inl e, s', [Call (GetRestApis region position)])
      | (Inr gateways, s') \<Rightarrow>
          (case reply_items gateways of
             Inl e \<Rightarrow> Some (Inl e, s', [Call (GetRestApis region position)])
           | Inr its \<Rightarrow>
               (case reply_position gateways of
                  None \<Rightarrow> Some (Inr (apis @ its), s', [Call (GetRestApis region position)])
                | Some pos \<Rightarrow>
                    Option.bind (get_apis client region (Some pos) (apis @ its) s')
                      (\<lambda>(r, s'', evs).
                         Some (r, s'', Call (GetRestApis region position) # evs)))))"

subsection \<open>\<^verbatim>\<open>_configure_api\<close>\<close>

text \<open>Sequencing of calls: the first exception ends the sequence and is raised.\<close>

definition invoke :: "'s plane \<Rightarrow> cp_call \<Rightarrow> 's \<Rightarrow> (py_exn + reply) \<times> 's \<times> event list" where
  "invoke client c s = (case client c s of (r, s') \<Rightarrow> (r, s', [Call c]))"

definition and_then ::
  "(py_exn + 'a) \<times> 's \<times> event list \<Rightarrow> ('a \<Rightarrow> 's \<Rightarrow> (py_exn + 'b) \<times> 's \<times> event list)
     \<Rightarrow> (py_exn + 'b) \<times> 's \<times> event list" where
  "and_then m f =
     (case m of
        (Inl e, s, evs) \<Rightarrow> (Inl e, s, evs)
      | (Inr x, s, evs) \<Rightarrow> (case f x s of (r, s', evs') \<Rightarrow> (r, s', evs @ evs')))"

definition configure_api ::
  "'s plane \<Rightarrow> pool \<Rightarrow> string \<Rightarrow> string \<Rightarrow> string \<Rightarrow> string \<Rightarrow> 's
     \<Rightarrow> (py_exn + unit) \<times> 's \<times> event list" where
  "configure_api client self region aid api_resource_id resource_id s =
     and_then (invoke client (PutMethod region aid api_resource_id) s) (\<lambda>_ s.
     and_then (invoke client (PutIntegration region aid api_resource_id (target self)) s) (\<lambda>_ s.
     and_then (invoke client (PutMethod region aid resource_id) s) (\<lambda>_ s.
     and_then (invoke client
                 (PutIntegration region aid resource_id (target self @ ''/{proxy}'')) s) (\<lambda>_ s.
     and_then (invoke client (CreateDeployment region aid ''proxy-stage'') s) (\<lambda>_ s.
       (Inr (), s, []))))))"

subsection \<open>\<^verbatim>\<open>_create_api\<close>\<close>

definition api_address :: "string \<Rightarrow> string \<Rightarrow> string" where
  "api_address aid region = aid @ ''.execute-api.'' @ region @ ''.amazonaws.com''"

definition name_or_empty :: "api \<Rightarrow> string" where
  "name_or_empty a = (case api_name a of None \<Rightarrow> [] | Some n \<Rightarrow> n)"

text \<open>
  The body of the \<^verbatim>\<open>try\<close> block.  It raises, or returns from the method with the
  address of an existing API (\<open>Inr (Inl address)\<close>), or falls through with the id
  of the API it created (\<open>Inr (Inr api_id)\<close>).
\<close>

definition try_block ::
  "'s plane \<Rightarrow> pool \<Rightarrow> string \<Rightarrow> bool \<Rightarrow> 's
     \<Rightarrow> ((py_exn + (string + string)) \<times> 's \<times> event list) option" where
  "try_block client self region force s =
     (let create = (\<lambda>s.
            and_then (invoke client (CreateRestApi region (name self)) s) (\<lambda>r s.
              (case reply_id r of Inl e \<Rightarrow> (Inl e, s, []) | Inr aid \<Rightarrow> (Inr (Inr aid), s, []))))
      in if \<not> force then
           (case get_apis client region None [] s of
              None \<Rightarrow> None
            | Some m \<Rightarrow>
                Some (and_then m (\<lambda>current_apis s.
                  (case find (\<lambda>a. startswith (name_or_empty a) (name self)) current_apis of
                     Some a \<Rightarrow> (Inr (Inl (api_address (api_id a) region)), s, [])
                   | None \<Rightarrow> create s))))
         else Some (create s))"

text \<open>What follows the \<^verbatim>\<open>try\<close> statement, outside every handler.\<close>

definition setup_api ::
  "'s plane \<Rightarrow> pool \<Rightarrow> string \<Rightarrow> string \<Rightarrow> 's \<Rightarrow> (py_exn + string option) \<times> 's \<times> event list" where
  "setup_api client self region aid s =
     and_then (invoke client (GetResources region aid) s) (\<lambda>r s.
     and_then (case reply_items r of
                 Inl e \<Rightarrow> (Inl e, s, [])
               | Inr its \<Rightarrow> (case index its 0 of
                              Inl e \<Rightarrow> (Inl e, s, [])
                            | Inr root \<Rightarrow> (Inr (api_id root), s, []))) (\<lambda>api_resource_id s.
     and_then (invoke client (CreateResource region aid api_resource_id ''{proxy+}'') s) (\<lambda>r s.
     and_then (case reply_id r of Inl e \<Rightarrow> (Inl e, s, []) | Inr i \<Rightarrow> (Inr i, s, []))
       (\<lambda>resource_id s.
     and_then (configure_api client self region aid api_resource_id resource_id s) (\<lambda>_ s.
       (Inr (Some (api_address aid region)), s, []))))))"

text \<open>
  \<^verbatim>\<open>_create_api(region, force)\<close>: the \<^verbatim>\<open>try\<close> block, its two handlers, and the
  set-up that follows.  The handler of a rate-limit error sleeps and calls the
  method again with the same arguments, from inside the handler: every retry is
  one more nested call.  The body is written once, with that nested call as
  the parameter \<open>retry\<close>.
\<close>

definition create_api_body ::
  "('s \<Rightarrow> ((py_exn + string option) \<times> 's \<times> event list) option)
     \<Rightarrow> 's plane \<Rightarrow> pool \<Rightarrow> string \<Rightarrow> bool \<Rightarrow> 's
     \<Rightarrow> ((py_exn + string option) \<times> 's \<times> event list) option" where
  "create_api_body retry client self region force s =
     (case try_block client self region force s of
        None \<Rightarrow> None
      | Some (Inl e, s1, evs) \<Rightarrow>
          (case e of
             ClientError code \<Rightarrow>
               if code = ''TooManyRequestsException''
               then Option.bind (retry s1)
                      (\<lambda>(r, s2, evs'). Some (r, s2, evs @ [Sleep 3] @ evs'))
               else Some (Inr None, s1, evs)
           | EndpointConnectionError \<Rightarrow> Some (Inr None, s1, evs)
           | _ \<Rightarrow> Some (Inl e, s1, evs))
      | Some (Inr (Inl address), s1, evs) \<Rightarrow> Some (Inr (Some address), s1, evs)
      | Some (Inr (Inr aid), s1, evs) \<Rightarrow>
          (case setup_api client self region aid s1 of
             (r, s2, evs') \<Rightarrow> Some (r, s2, evs @ evs')))"

text \<open>
  The code sets no limit to the retries, the interpreter does: CPython raises
  RecursionError at a call that would nest deeper than its recursion limit
  allows.  \<open>depth\<close> is the number of nested calls of the method that are still
  allowed when it is entered.  With none left, the call in the handler raises
  RecursionError; it is raised inside a handler and is of neither handled
  class, so it leaves every frame of the method.
\<close>

fun create_api ::
  "nat \<Rightarrow> 's plane \<Rightarrow> pool \<Rightarrow> string \<Rightarrow> bool \<Rightarrow> 's
     \<Rightarrow> ((py_exn + string option) \<times> 's \<times> event list) option" where
  "create_api 0 client self region force s =
     create_api_body (\<lambda>s1. Some (Inl RecursionError, s1, [])) client self region force s"
| "create_api (Suc depth) client self region force s =
     create_api_body (create_api depth client self region force) client self region force s"

text \<open>
  Rate-limited attempts in a row.  \<open>throttled client self region force n s\<close> is
  the plane and the events after \<open>n\<close> passes through the \<^verbatim>\<open>try\<close> block from
  \<open>s\<close> that each end in the rate-limit error, every one followed by its sleep;
  it is None if one of these passes ends otherwise.
\<close>

fun throttled ::
  "'s plane \<Rightarrow> pool \<Rightarrow> string \<Rightarrow> bool \<Rightarrow> nat \<Rightarrow> 's \<Rightarrow> ('s \<times> event list) option" where
  "throttled client self region force 0 s = Some (s, [])"
| "throttled client self region force (Suc n) s =
     (case try_block client self region force s of
        Some (Inl (ClientError code), s1, evs) \<Rightarrow>
          if code = ''TooManyRequestsException''
          then map_option (\<lambda>(sn, evs'). (sn, evs @ [Sleep 3] @ evs'))
                 (throttled client self region force n s1)
          else None
      | _ \<Rightarrow> None)"

section \<open>Provisioning run: \<^verbatim>\<open>start\<close>\<close>

text \<open>
  \<^verbatim>\<open>start\<close> creates one task per region and takes their results in the order in
  which they complete.  The tasks run under cooperative scheduling and touch no
  field of the pool; they are run here one after the other in the completion
  order \<open>order\<close>, each to its end.  A task's result is what \<^verbatim>\<open>await task\<close>
  gives: an endpoint, None, or the exception the task raised.
\<close>

fun run_tasks ::
  "nat \<Rightarrow> 's plane \<Rightarrow> pool \<Rightarrow> bool \<Rightarrow> string list \<Rightarrow> 's
     \<Rightarrow> ((py_exn + string option) list \<times> 's \<times> event list) option" where
  "run_tasks depth client self force [] s = Some ([], s, [])"
| "run_tasks depth client self force (region # rs) s =
     Option.bind (create_api depth client self region force s) (\<lambda>(r, s1, evs).
     Option.bind (run_tasks depth client self force rs s1) (\<lambda>(res, s2, evs').
       Some (r # res, s2, evs @ evs')))"

text \<open>
  One pass of the loop body, from one \<^verbatim>\<open>await task\<close> to the next.  No other task
  runs in between, so the append and the flag are one step.
\<close>

definition consume :: "pool \<Rightarrow> string option \<Rightarrow> pool" where
  "consume self endpoint =
     (case endpoint of
        None \<Rightarrow> self
      | Some e \<Rightarrow>
          (let self1 = self\<lparr>endpoints := endpoints self @ [e]\<rparr>
           in if \<not> active self1 then self1\<lparr>active := True\<rparr> else self1))"

text \<open>
  The loop over the results in completion order.  An exception raised by a
  task leaves the loop and \<^verbatim>\<open>start\<close>; the pool keeps what was done before.
\<close>

fun start_loop :: "pool \<Rightarrow> (py_exn + string option) list \<Rightarrow> (py_exn + unit) \<times> pool" where
  "start_loop self [] = (Inr (), self)"
| "start_loop self (Inl e # ts) = (Inl e, self)"
| "start_loop self (Inr endpoint # ts) = start_loop (consume self endpoint) ts"

text \<open>The pool as it is at each \<^verbatim>\<open>await task\<close> and when the loop is left.\<close>

fun start_states :: "pool \<Rightarrow> (py_exn + string option) list \<Rightarrow> pool list" where
  "start_states self [] = [self]"
| "start_states self (Inl e # ts) = [self]"
| "start_states self (Inr endpoint # ts) = self # start_states (consume self endpoint) ts"

definition start ::
  "nat \<Rightarrow> 's plane \<Rightarrow> pool \<Rightarrow> bool \<Rightarrow> string list \<Rightarrow> 's
     \<Rightarrow> (((py_exn + unit) \<times> pool) \<times> 's \<times> event list) option" where
  "start depth client self force order s =
     map_option (\<lambda>(results, s', evs). (start_loop self results, s', evs))
       (run_tasks depth client self force order s)"

section \<open>Teardown: \<^verbatim>\<open>close\<close>\<close>

text \<open>
  The \<^verbatim>\<open>for\<close> loop of \<^verbatim>\<open>_clear_region_apis\<close> over the listed APIs.  It ends, or
  raises, or meets a rate-limit error, sleeps and hands over to a fresh call of
  the method.  \<^verbatim>\<open>api["name"]\<close> raises KeyError for an API without a name.
\<close>

datatype loop_outcome = LoopDone | LoopRaise py_exn | LoopRetry

fun delete_loop ::
  "'s plane \<Rightarrow> pool \<Rightarrow> string \<Rightarrow> bool \<Rightarrow> api list \<Rightarrow> 's \<Rightarrow> loop_outcome \<times> 's \<times> event list" where
  "delete_loop client self region force [] s = (LoopDone, s, [])"
| "delete_loop client self region force (a # as) s =
     (if \<not> force \<and> api_name a = None then (LoopRaise KeyError, s, [])
      else if force \<or> api_name a = Some (name self) then
        (case client (DeleteRestApi region (api_id a)) s of
           (Inl e, s') \<Rightarrow>
             (case e of
                ClientError code \<Rightarrow>
                  if code = ''TooManyRequestsException''
                  then (LoopRetry, s', [Call (DeleteRestApi region (api_id a)), Sleep 3])
                  else (case delete_loop client self region force as s' of
                          (r, s'', evs) \<Rightarrow>
                            (r, s'', Call (DeleteRestApi region (api_id a)) # evs))
              | _ \<Rightarrow> (LoopRaise e, s', [Call (DeleteRestApi region (api_id a))]))
         | (Inr _, s') \<Rightarrow>
             (case delete_loop client self region force as s' of
                (r, s'', evs) \<Rightarrow> (r, s'', Call (DeleteRestApi region (api_id a)) # evs)))
      else delete_loop client self region force as s)"

text \<open>
  \<^verbatim>\<open>_clear_region_apis(region, force)\<close>.  Its retry is a nested call from inside
  the handler too; the body takes it as the parameter \<open>retry\<close>, and \<open>depth\<close>
  counts the nested calls still allowed, as for \<^verbatim>\<open>_create_api\<close>.
\<close>

definition clear_region_apis_body ::
  "('s \<Rightarrow> ((py_exn + unit) \<times> 's \<times> event list) option)
     \<Rightarrow> 's plane \<Rightarrow> pool \<Rightarrow> string \<Rightarrow> bool \<Rightarrow> 's
     \<Rightarrow> ((py_exn + unit) \<times> 's \<times> event list) option" where
  "clear_region_apis_body retry client self region force s =
     (case get_apis client region None [] s of
        None \<Rightarrow> None
      | Some (Inl e, s1, evs) \<Rightarrow> Some (Inl e, s1, evs)
      | Some (Inr apis, s1, evs) \<Rightarrow>
          (case delete_loop client self region force apis s1 of
             (LoopDone, s2, evs') \<Rightarrow> Some (Inr (), s2, evs @ evs')
           | (LoopRaise e, s2, evs') \<Rightarrow> Some (Inl e, s2, evs @ evs')
           | (LoopRetry, s2, evs') \<Rightarrow>
               Option.bind (retry s2)
                 (\<lambda>(r, s3, evs''). Some (r, s3, evs @ evs' @ evs''))))"

fun clear_region_apis ::
  "nat \<Rightarrow> 's plane \<Rightarrow> pool \<Rightarrow> string \<Rightarrow> bool \<Rightarrow> 's
     \<Rightarrow> ((py_exn + unit) \<times> 's \<times> event list) option" where
  "clear_region_apis 0 client self region force s =
     clear_region_apis_body (\<lambda>s2. Some (Inl RecursionError, s2, [])) client self region force s"
| "clear_region_apis (Suc depth) client self region force s =
     clear_region_apis_body (clear_region_apis depth client self region force)
       client self region force s"

text \<open>
  \<^verbatim>\<open>asyncio.gather\<close> over tasks, without \<^verbatim>\<open>return_exceptions\<close>.  The tasks run
  under cooperative scheduling; they are run here one after the other, each to
  its end, in the order in which they end.  gather raises the exception of the
  first task that ends with one, at once: the tasks that have not ended by then
  are not cancelled, but what they do comes after gather has raised and is no
  part of its result.
\<close>

fun gather ::
  "('s \<Rightarrow> ((py_exn + 'a) \<times> 's \<times> event list) option) list \<Rightarrow> 's
     \<Rightarrow> ((py_exn + 'a list) \<times> 's \<times> event list) option" where
  "gather [] s = Some (Inr [], s, [])"
| "gather (task # tasks) s =
     Option.bind (task s) (\<lambda>(r, s1, evs).
       (case r of
          Inl e \<Rightarrow> Some (Inl e, s1, evs)
        | Inr x \<Rightarrow>
            Option.bind (gather tasks s1) (\<lambda>(rs, s2, evs').
              Some (case rs of Inl e \<Rightarrow> Inl e | Inr xs \<Rightarrow> Inr (x # xs), s2, evs @ evs'))))"

text \<open>
  \<^verbatim>\<open>_clear_apis\<close>: gather over one task per region of the pool.  \<open>order\<close> lists
  the regions in the order in which their tasks end.
\<close>

definition clear_apis ::
  "nat \<Rightarrow> 's plane \<Rightarrow> pool \<Rightarrow> string list \<Rightarrow> 's
     \<Rightarrow> ((py_exn + unit) \<times> 's \<times> event list) option" where
  "clear_apis depth client self order s =
     map_option (\<lambda>(res, s', evs). (case res of Inl e \<Rightarrow> Inl e | Inr _ \<Rightarrow> Inr (), s', evs))
       (gather (map (\<lambda>region. clear_region_apis depth client self region (clear_all self)) order)
          s)"

text \<open>
  \<^verbatim>\<open>close\<close>: \<^verbatim>\<open>_clear_apis\<close>, then the inherited \<^verbatim>\<open>close\<close> of the HTTP client
  session, then \<^verbatim>\<open>self.active = False\<close>.  An exception out of \<^verbatim>\<open>_clear_apis\<close>
  skips the other two.  The result carries the pool as the call leaves it.
\<close>

definition close ::
  "nat \<Rightarrow> 's plane \<Rightarrow> pool \<Rightarrow> string list \<Rightarrow> 's
     \<Rightarrow> ((py_exn + unit) \<times> pool \<times> 's \<times> event list) option" where
  "close depth client self order s =
     (case clear_apis depth client self order s of
        None \<Rightarrow> None
      | Some (Inl e, s', evs) \<Rightarrow> Some (Inl e, self, s', evs)
      | Some (Inr _, s', evs) \<Rightarrow>
          Some (Inr (), self\<lparr>closed := True, active := False\<rparr>, s', evs))"

section \<open>A simulated control plane\<close>

text \<open>
  Test double used as concrete input: an in-memory API Gateway.  It keeps the
  APIs of every region, lists them in pages of \<open>page_size\<close> entries with the
  offset of the next page as continuation token, and numbers the APIs it
  creates.  A fault policy decides, from the call and the remaining fault
  budget, whether the call raises; a raised fault uses up one unit of budget.
\<close>

record sim =
  sim_apis :: "(string \<times> api) list"
  page_size :: nat
  budget :: nat
  fresh :: nat

definition decode_position :: "string option \<Rightarrow> nat \<Rightarrow> nat" where
  "decode_position pos n =
     (case pos of
        None \<Rightarrow> 0
      | Some t \<Rightarrow> (case find (\<lambda>k. str_nat k = t) [0..<Suc n] of None \<Rightarrow> 0 | Some k \<Rightarrow> k))"

definition region_apis :: "string \<Rightarrow> sim \<Rightarrow> api list" where
  "region_apis region s = map snd (filter (\<lambda>(r, a). r = region) (sim_apis s))"

definition sim_plane :: "(cp_call \<Rightarrow> nat \<Rightarrow> py_exn option) \<Rightarrow> sim plane" where
  "sim_plane policy c s =
     (case policy c (budget s) of
        Some e \<Rightarrow> (Inl e, s\<lparr>budget := budget s - 1\<rparr>)
      | None \<Rightarrow>
          (case c of
             GetRestApis region pos \<Rightarrow>
               (let every = region_apis region s;
                    off = decode_position pos (length every)
                in (Inr (RestApis (take (page_size s) (drop off every))
                          (if off + page_size s < length every
                           then Some (str_nat (off + page_size s)) else None)), s))
           | CreateRestApi region nm \<Rightarrow>
               (Inr (Created (''api'' @ str_nat (fresh s))),
                s\<lparr>sim_apis := sim_apis s @ [(region, Api (''api'' @ str_nat (fresh s)) (Some nm))],
                  fresh := Suc (fresh s)\<rparr>)
           | GetResources region aid \<Rightarrow> (Inr (Resources [''root'']), s)
           | CreateResource region aid parent part \<Rightarrow> (Inr (Created ''proxy''), s)
           | DeleteRestApi region aid \<Rightarrow>
               (Inr Empty,
                s\<lparr>sim_apis := filter (\<lambda>(r, a). \<not> (r = region \<and> api_id a = aid)) (sim_apis s)\<rparr>)
           | _ \<Rightarrow> (Inr Empty, s)))"

definition healthy :: "cp_call \<Rightarrow> nat \<Rightarrow> py_exn option" where
  "healthy c n = None"

definition throttle_create :: "cp_call \<Rightarrow> nat \<Rightarrow> py_exn option" where
  "throttle_create c n =
     (case c of
        CreateRestApi region nm \<Rightarrow>
          if 0 < n then Some (ClientError ''TooManyRequestsException'') else None
      | _ \<Rightarrow> None)"

definition throttle_all :: "cp_call \<Rightarrow> nat \<Rightarrow> py_exn option" where
  "throttle_all c n = (if 0 < n then Some (ClientError ''TooManyRequestsException'') else None)"

definition listing_down :: "cp_call \<Rightarrow> nat \<Rightarrow> py_exn option" where
  "listing_down c n =
     (case c of GetRestApis region pos \<Rightarrow> Some EndpointConnectionError | _ \<Rightarrow> None)"

definition plane_down :: "cp_call \<Rightarrow> nat \<Rightarrow> py_exn option" where
  "plane_down c n = Some EndpointConnectionError"

definition resources_denied :: "cp_call \<Rightarrow> nat \<Rightarrow> py_exn option" where
  "resources_denied c n =
     (case c of
        GetResources region aid \<Rightarrow> Some (ClientError ''AccessDeniedException'')
      | _ \<Rightarrow> None)"

section \<open>Concrete inputs and syntax checks\<close>

text \<open>The pool that \<^verbatim>\<open>RotatingClientSession("https://ipinfo.io")\<close> constructs.\<close>

definition demo_pool :: pool where
  "demo_pool =
     \<lparr> target = ''https://ipinfo.io'', key_id = None, key_secret = None,
       host_header = ''ipinfo.io'', clear_all = False, verbose = False,
       wait_all_regions = True, endpoints = [], name = ''IP Rotator for https://ipinfo.io'',
       active = False, regions = region_catalog, closed = False \<rparr>"

text \<open>The value a caller put under a header name, if the caller passed a dict.\<close>

definition caller_value :: "headers_arg \<Rightarrow> string \<Rightarrow> string option" where
  "caller_value h k = (case h of HDict d \<Rightarrow> map_of d k | _ \<Rightarrow> None)"

text \<open>
  Dotted-quad IPv4 syntax: four fields separated by dots, each of one to three
  decimal digits with a value of at most 255.
\<close>

definition is_digit :: "char \<Rightarrow> bool" where
  "is_digit c = (48 \<le> (of_char c :: nat) \<and> (of_char c :: nat) \<le> 57)"

definition dec_value :: "string \<Rightarrow> nat" where
  "dec_value s = foldl (\<lambda>acc c. 10 * acc + (of_char c - 48)) 0 s"

fun split_on :: "char \<Rightarrow> string \<Rightarrow> string list" where
  "split_on c [] = [Nil]"
| "split_on c (x # xs) =
     (if x = c then [] # split_on c xs
      else (case split_on c xs of Nil \<Rightarrow> [x] # Nil | p # ps \<Rightarrow> (x # p) # ps))"

definition is_octet :: "string \<Rightarrow> bool" where
  "is_octet p = (p \<noteq> [] \<and> length p \<le> 3 \<and> list_all is_digit p \<and> dec_value p \<le> 255)"

definition is_dotted_quad :: "string \<Rightarrow> bool" where
  "is_dotted_quad s =
     (case split_on CHR ''.'' s of
        [a, b, c, d] \<Rightarrow> is_octet a \<and> is_octet b \<and> is_octet c \<and> is_octet d
      | _ \<Rightarrow> False)"

text \<open>The number of places where a sequence of flags goes from false to true.\<close>

fun flips :: "bool list \<Rightarrow> nat" where
  "flips (a # b # bs) = (if \<not> a \<and> b then 1 else 0) + flips (b # bs)"
| "flips _ = 0"

text \<open>
  The events of one provisioning attempt against the simulated plane: the
  listing (one page, when the store has no API in the region), and the calls of
  a set-up that succeeds.
\<close>

definition listing_events :: "string \<Rightarrow> bool \<Rightarrow> event list" where
  "listing_events region force = (if force then [] else [Call (GetRestApis region None)])"

definition setup_events :: "pool \<Rightarrow> string \<Rightarrow> string \<Rightarrow> event list" where
  "setup_events self region aid =
     [Call (GetResources region aid),
      Call (CreateResource region aid ''root'' ''{proxy+}''),
      Call (PutMethod region aid ''root''),
      Call (PutIntegration region aid ''root'' (target self)),
      Call (PutMethod region aid ''proxy''),
      Call (PutIntegration region aid ''proxy'' (target self @ ''/{proxy}'')),
      Call (CreateDeployment region aid ''proxy-stage'')]"


section \<open>Decimal strings and dotted quads\<close>

lemma str_nat_small: "n < 10 \<Longrightarrow> str_nat n = [digit n]"
  by (simp add: str_nat.simps)

lemma str_nat_large: "10 \<le> n \<Longrightarrow> str_nat n = str_nat (n div 10) @ [digit (n mod 10)]"
  by (subst str_nat.simps) simp

lemma digit_simps:
  "digit 0 = CHR ''0''" "digit 1 = CHR ''1''" "digit 2 = CHR ''2''" "digit 3 = CHR ''3''"
  "digit 4 = CHR ''4''" "digit 5 = CHR ''5''" "digit 6 = CHR ''6''" "digit 7 = CHR ''7''"
  "digit 8 = CHR ''8''" "digit 9 = CHR ''9''"
  unfolding digit_def by code_simp+

lemma digit_Suc_0: "digit (Suc 0) = CHR ''1''"
  using digit_simps(2) by simp

lemma digit_Suc_Suc_0: "digit (Suc (Suc 0)) = CHR ''2''"
  using digit_simps(3) by (simp add: numeral_2_eq_2)

lemma of_char_digit: "d < 10 \<Longrightarrow> (of_char (digit d) :: nat) = 48 + d"
  by (simp add: digit_def)

lemma is_digit_digit: "d < 10 \<Longrightarrow> is_digit (digit d)"
  by (simp add: is_digit_def of_char_digit)

lemma digit_not_dot: "d < 10 \<Longrightarrow> digit d \<noteq> CHR ''.''"
proof
  assume "d < 10" and "digit d = CHR ''.''"
  then have "(of_char (CHR ''.'') :: nat) = 48 + d" using of_char_digit by metis
  then show False by simp
qed

lemma str_nat_digits: "list_all is_digit (str_nat n)"
proof (induction n rule: str_nat.induct)
  case (1 n)
  show ?case
  proof (cases "n < 10")
    case True
    then show ?thesis by (simp add: str_nat_small is_digit_digit)
  next
    case False
    then show ?thesis using 1 by (simp add: str_nat_large is_digit_digit)
  qed
qed

lemma str_nat_no_dot: "CHR ''.'' \<notin> set (str_nat n)"
proof (induction n rule: str_nat.induct)
  case (1 n)
  show ?case
  proof (cases "n < 10")
    case True
    then show ?thesis using digit_not_dot[of n] by (auto simp add: str_nat_small)
  next
    case False
    then show ?thesis using 1 digit_not_dot[of "n mod 10"] by (auto simp add: str_nat_large)
  qed
qed

lemma str_nat_nonempty: "str_nat n \<noteq> []"
  by (subst str_nat.simps) simp

lemma dec_value_snoc: "dec_value (xs @ [c]) = 10 * dec_value xs + (of_char c - 48)"
  by (simp add: dec_value_def)

lemma dec_value_str_nat: "dec_value (str_nat n) = n"
proof (induction n rule: str_nat.induct)
  case (1 n)
  show ?case
  proof (cases "n < 10")
    case True
    then show ?thesis by (simp add: str_nat_small dec_value_def of_char_digit)
  next
    case False
    then show ?thesis using 1 by (simp add: str_nat_large dec_value_snoc of_char_digit)
  qed
qed

lemma str_nat_length: "n < 1000 \<Longrightarrow> length (str_nat n) \<le> 3"
  by (cases "n < 10"; cases "n div 10 < 10") (simp_all add: str_nat_small str_nat_large)

lemma is_octet_str_nat: "n < 256 \<Longrightarrow> is_octet (str_nat n)"
  by (simp add: is_octet_def str_nat_nonempty str_nat_length str_nat_digits dec_value_str_nat)

lemma split_on_no_sep: "c \<notin> set xs \<Longrightarrow> split_on c xs = [xs]"
  by (induction xs) auto

lemma split_on_append: "c \<notin> set xs \<Longrightarrow> split_on c (xs @ c # ys) = xs # split_on c ys"
  by (induction xs) auto

lemma split_on_quad:
  "split_on CHR ''.'' (str_nat a @ ''.'' @ str_nat b @ ''.'' @ str_nat c @ ''.'' @ str_nat d) =
     [str_nat a, str_nat b, str_nat c, str_nat d]"
  by (simp add: split_on_append split_on_no_sep str_nat_no_dot)

lemma bytes_zero:
  fixes n :: nat
  assumes "n < 2 ^ 32" "n div 2 ^ 24 mod 256 = 0" "n div 2 ^ 16 mod 256 = 0"
    "n div 2 ^ 8 mod 256 = 0" "n mod 256 = 0"
  shows "n = 0"
proof -
  have a: "n mod 65536 = 0"
    using mod_mult2_eq[of n 256 256] assms(4,5) by simp
  have b: "n mod 16777216 = 0"
    using mod_mult2_eq[of n 65536 256] assms(3) a by simp
  have c: "n mod 4294967296 = 0"
    using mod_mult2_eq[of n 16777216 256] assms(2) b by simp
  from assms(1) have "n mod 4294967296 = n" by simp
  with c show ?thesis by simp
qed

lemma str_nat_zero: "str_nat n = ''0'' \<Longrightarrow> n = 0"
proof -
  assume h: "str_nat n = ''0''"
  have "n = dec_value (str_nat n)" by (simp only: dec_value_str_nat)
  also have "\<dots> = dec_value ''0''" by (simp only: h)
  also have "\<dots> = 0" by (simp add: dec_value_def)
  finally show ?thesis .
qed

lemma quad_rendering:
  assumes "n < 2 ^ 32"
  shows "\<exists>bs v. pack_I n = Inr bs \<and> inet_ntoa bs = Inr v \<and> is_dotted_quad v \<and>
           (v = ''0.0.0.0'' \<longrightarrow> n = 0)"
proof -
  let ?a = "n div 2 ^ 24 mod 256" and ?b = "n div 2 ^ 16 mod 256"
    and ?c = "n div 2 ^ 8 mod 256" and ?d = "n mod 256"
  let ?v = "str_nat ?a @ ''.'' @ str_nat ?b @ ''.'' @ str_nat ?c @ ''.'' @ str_nat ?d"
  have p: "pack_I n = Inr [?a, ?b, ?c, ?d]" using assms by (simp add: pack_I_def)
  have i: "inet_ntoa [?a, ?b, ?c, ?d] = Inr ?v" by simp
  have q: "is_dotted_quad ?v"
    unfolding is_dotted_quad_def split_on_quad by (simp add: is_octet_str_nat)
  have z: "n = 0" if "?v = ''0.0.0.0''"
  proof -
    from that have "split_on CHR ''.'' ?v = split_on CHR ''.'' ''0.0.0.0''" by simp
    then have "[str_nat ?a, str_nat ?b, str_nat ?c, str_nat ?d] = [''0'', ''0'', ''0'', ''0'']"
      unfolding split_on_quad by simp
    then have "?a = 0" "?b = 0" "?c = 0" "?d = 0" by (simp_all add: str_nat_zero)
    then show ?thesis by (rule bytes_zero[OF assms])
  qed
  show ?thesis using p i q z by blast
qed

section \<open>Construction\<close>

lemma init_demo_pool: "init ''https://ipinfo.io'' None None None False False True = Inr demo_pool"
  by (simp add: init_def default_host_def Let_def demo_pool_def endswith_def startswith_def
      split1_def index_def)

lemma init_slash_demo:
  "init ''https://ipinfo.io/'' None None None False False True = Inr demo_pool"
  by (simp add: init_def default_host_def Let_def demo_pool_def endswith_def startswith_def
      split1_def index_def)

lemma init_two_slashes:
  "init ''https://a.com//'' None None None False False True =
     Inr \<lparr> target = ''https://a.com/'', key_id = None, key_secret = None,
       host_header = ''a.com'', clear_all = False, verbose = False,
       wait_all_regions = True, endpoints = [], name = ''IP Rotator for https://a.com/'',
       active = False, regions = region_catalog, closed = False \<rparr>"
  by (simp add: init_def default_host_def Let_def endswith_def startswith_def split1_def index_def)

lemma endswith_single: "endswith s [c] \<longleftrightarrow> s \<noteq> [] \<and> last s = c"
  by (cases s rule: rev_cases) (simp_all add: endswith_def)

lemma endswith_double: "endswith (zs @ [c, c]) [c, c]"
  by (simp add: endswith_def)

lemma butlast_slash:
  assumes "endswith t [c]" and "endswith (butlast t) [c]"
  shows "endswith t [c, c]"
proof -
  from assms(1) have "t \<noteq> []" "last t = c" by (simp_all add: endswith_single)
  then have t: "t = butlast t @ [c]" by (metis append_butlast_last_id)
  from assms(2) have "butlast t \<noteq> []" "last (butlast t) = c" by (simp_all add: endswith_single)
  then have "butlast t = butlast (butlast t) @ [c]" by (metis append_butlast_last_id)
  with t have "t = butlast (butlast t) @ [c, c]" by (metis append_Cons append_Nil append_assoc)
  then show ?thesis using endswith_double by metis
qed

lemma index_error: "index xs i = Inl e \<Longrightarrow> e = IndexError"
  by (simp add: index_def split: if_splits)

lemma default_host_error: "default_host t = Inl e \<Longrightarrow> e = IndexError"
  by (auto simp: default_host_def dest: index_error split: sum.splits)

lemma init_bad_scheme:
  "\<not> startswith tgt ''http://'' \<Longrightarrow> \<not> startswith tgt ''https://'' \<Longrightarrow>
     init tgt kid ks hh ca v w = Inl (ValueError ''Invalid URL schema'')"
  by (simp add: init_def Let_def)

lemma init_good_scheme:
  assumes "startswith tgt ''http://'' \<or> startswith tgt ''https://''"
  shows "init tgt kid ks hh ca v w =
     (case (if hh \<noteq> None \<and> hh \<noteq> Some [] then Inr (the hh)
            else default_host (if \<not> endswith tgt ''/'' then tgt else butlast tgt)) of
        Inl e \<Rightarrow> Inl e
      | Inr h \<Rightarrow>
          Inr \<lparr> target = (if \<not> endswith tgt ''/'' then tgt else butlast tgt),
                key_id = kid, key_secret = ks, host_header = h,
                clear_all = ca, verbose = v, wait_all_regions = w, endpoints = [],
                name = ''IP Rotator for '' @ (if \<not> endswith tgt ''/'' then tgt else butlast tgt),
                active = False, regions = region_catalog, closed = False \<rparr>)"
proof -
  have "\<not> (\<not> startswith tgt ''http://'' \<and> \<not> startswith tgt ''https://'')" using assms by blast
  then show ?thesis unfolding init_def Let_def by (rule if_not_P)
qed

lemma init_no_ValueError:
  assumes "startswith tgt ''http://'' \<or> startswith tgt ''https://''"
  shows "init tgt kid ks hh ca v w \<noteq> Inl (ValueError m)"
proof (cases "hh \<noteq> None \<and> hh \<noteq> Some []")
  case True
  then show ?thesis unfolding init_good_scheme[OF assms] by simp
next
  case False
  show ?thesis
  proof (cases "default_host (if \<not> endswith tgt ''/'' then tgt else butlast tgt)")
    case (Inl e)
    then have "e = IndexError" by (rule default_host_error)
    with Inl False show ?thesis unfolding init_good_scheme[OF assms] by simp
  next
    case (Inr h)
    with False show ?thesis unfolding init_good_scheme[OF assms] by simp
  qed
qed

lemma init_result:
  assumes "init tgt kid ks hh ca v w = Inr p"
  shows "target p = (if endswith tgt ''/'' then butlast tgt else tgt) \<and>
         \<not> active p \<and> endpoints p = []"
proof -
  have g: "startswith tgt ''http://'' \<or> startswith tgt ''https://''"
    using assms init_bad_scheme[of tgt kid ks hh ca v w] by auto
  show ?thesis
  proof (cases "if hh \<noteq> None \<and> hh \<noteq> Some [] then Inr (the hh)
            else default_host (if \<not> endswith tgt ''/'' then tgt else butlast tgt)")
    case (Inl e)
    with assms show ?thesis unfolding init_good_scheme[OF g] by simp
  next
    case (Inr h)
    with assms show ?thesis unfolding init_good_scheme[OF g] by auto
  qed
qed

lemma init_fresh: "init tgt kid ks hh ca v w = Inr p \<Longrightarrow> \<not> active p \<and> endpoints p = []"
  using init_result by blast

text \<open>
  Claim C9, as the code has it.  Construction raises ValueError exactly when the
  target begins with neither \<^verbatim>\<open>http://\<close> nor \<^verbatim>\<open>https://\<close>.  When construction
  succeeds, the stored target is the argument with one trailing slash cut off,
  if it had one; so it ends with a slash only if the argument ended with two or
  more.
\<close>

theorem init_strips_one_slash:
  "((\<exists>m. init tgt kid ks hh ca v w = Inl (ValueError m)) \<longleftrightarrow>
      (\<not> startswith tgt ''http://'' \<and> \<not> startswith tgt ''https://'')) \<and>
   (init tgt kid ks hh ca v w = Inr p \<longrightarrow>
      target p = (if endswith tgt ''/'' then butlast tgt else tgt) \<and>
      (\<not> endswith tgt ''//'' \<longrightarrow> \<not> endswith (target p) ''/''))"
proof -
  have a: "(\<exists>m. init tgt kid ks hh ca v w = Inl (ValueError m)) \<longleftrightarrow>
      (\<not> startswith tgt ''http://'' \<and> \<not> startswith tgt ''https://'')"
    using init_bad_scheme[of tgt kid ks hh ca v w] init_no_ValueError[of tgt kid ks hh ca v w]
    by blast
  have b: "target p = (if endswith tgt ''/'' then butlast tgt else tgt) \<and>
      (\<not> endswith tgt ''//'' \<longrightarrow> \<not> endswith (target p) ''/'')"
    if h: "init tgt kid ks hh ca v w = Inr p"
  proof -
    have t: "target p = (if endswith tgt ''/'' then butlast tgt else tgt)"
      using init_result[OF h] by blast
    have "endswith tgt ''//''" if "endswith (target p) ''/''"
    proof (cases "endswith tgt ''/''")
      case True
      with t that have "endswith (butlast tgt) ''/''" by simp
      with True show ?thesis by (rule butlast_slash)
    next
      case False
      with t that show ?thesis by simp
    qed
    with t show ?thesis by blast
  qed
  show ?thesis using a b by blast
qed

theorem init_strips_one_slash_witness:
  "init ''https://ipinfo.io/'' None None None False False True = Inr demo_pool \<and>
   target demo_pool = ''https://ipinfo.io'' \<and> \<not> endswith (target demo_pool) ''/''"
  using init_strips_one_slash[of "''https://ipinfo.io/''" None None None False False True demo_pool]
    init_slash_demo
  by (simp add: demo_pool_def endswith_def)

text \<open>
  The claim as stated fails for an argument with two trailing slashes: the
  stored target still ends with one.
\<close>

theorem init_trailing_slash_counterexample:
  "init ''https://a.com//'' None None None False False True =
     Inr \<lparr> target = ''https://a.com/'', key_id = None, key_secret = None,
       host_header = ''a.com'', clear_all = False, verbose = False,
       wait_all_regions = True, endpoints = [], name = ''IP Rotator for https://a.com/'',
       active = False, regions = region_catalog, closed = False \<rparr>
   \<and> endswith ''https://a.com/'' ''/''"
  using init_two_slashes by (simp add: endswith_def)

section \<open>Routing\<close>

lemma randint_onto: "1 \<le> n \<and> n \<le> 2 ^ 32 - 1 \<Longrightarrow> randint (n - 1) 1 0xffffffff = n"
proof -
  assume h: "1 \<le> n \<and> n \<le> 2 ^ 32 - 1"
  then have "n - 1 < 4294967295" by (simp add: less_eq_Suc_le)
  then have "(n - 1) mod 4294967295 = n - 1" by (rule mod_less)
  then show ?thesis using h by (simp add: randint_def randbelow_def)
qed

lemma randint_range: "a \<le> randint seed a b \<and> (a \<le> b \<longrightarrow> randint seed a b \<le> b)"
proof -
  have "randbelow seed (b - a + 1) < b - a + 1" by (simp add: randbelow_def)
  then show ?thesis by (auto simp: randint_def)
qed

lemma randint_draw: "1 \<le> randint seed 1 0xffffffff \<and> randint seed 1 0xffffffff \<le> 2 ^ 32 - 1"
  using randint_range[of 1 seed "0xffffffff"] by simp

lemma forwarded_header_popped:
  "map_of hs ''X-Forwarded-For'' = None \<Longrightarrow>
     \<exists>bs v. pack_I (randint seed 1 0xffffffff) = Inr bs \<and> inet_ntoa bs = Inr v \<and>
       forwarded_header hs seed = Inr v \<and> is_dotted_quad v \<and> v \<noteq> ''0.0.0.0''"
proof -
  assume m: "map_of hs ''X-Forwarded-For'' = None"
  let ?n = "randint seed 1 0xffffffff"
  have r: "1 \<le> ?n" "?n < 2 ^ 32" using randint_draw[of seed] by simp_all
  from quad_rendering[OF r(2)] obtain bs v where
    h: "pack_I ?n = Inr bs" "inet_ntoa bs = Inr v" "is_dotted_quad v" "v = ''0.0.0.0'' \<longrightarrow> ?n = 0"
    by blast
  have "forwarded_header hs seed = Inr v" using m h(1,2) by (simp add: forwarded_header_def)
  moreover have "v \<noteq> ''0.0.0.0''" using h(4) r(1) by auto
  ultimately show ?thesis using h by blast
qed

lemma popped_headers:
  "map_of (AList.update ''X-Host'' hh (AList.delete ''X-Forwarded-For'' h0)) ''X-Forwarded-For'' = None"
  by (simp add: AList.update_conv' AList.delete_conv')

lemma headers_or_dict_cases:
  "hdrs \<noteq> HOther True \<Longrightarrow> \<exists>h0 own. headers_or_dict hdrs = Inr (h0, own)"
  by (cases hdrs) (auto simp: headers_or_dict_def)

lemma request_valid:
  assumes e: "endpoints self \<noteq> []"
    and u: "startswith url ''http://'' \<or> startswith url ''https://''"
    and h: "headers_or_dict hdrs = Inr (h0, own)"
    and f: "forwarded_header (AList.update ''X-Host'' (host_header self)
              (AList.delete ''X-Forwarded-For'' h0)) seed2 = Inr v"
  shows "fst (request self seed1 seed2 meth url hdrs kwargs) =
     Inr \<lparr> out_method = meth,
           out_url = ''https://'' @ endpoints self ! (seed1 mod length (endpoints self)) @
             ''/proxy-stage/'' @
             (case index (split1 url ''://'') 1 of
                Inl e \<Rightarrow> []
              | Inr rest \<Rightarrow> (case index (split1 rest ''/'') 1 of Inl e \<Rightarrow> [] | Inr p \<Rightarrow> p)),
           out_headers = AList.update ''X-Forwarded-Header'' v
             (AList.update ''X-Host'' (host_header self) (AList.delete ''X-Forwarded-For'' h0)),
           out_kwargs = kwargs \<rparr>"
  using e u h f by (auto simp: request_def Let_def choice_def randbelow_def)

lemma split_first_scheme:
  "sch = ''http'' \<or> sch = ''https'' \<Longrightarrow> split_first ''://'' (sch @ ''://'' @ x) = Some (sch, x)"
  by (auto simp: startswith_def)

lemma split_first_no_slash: "CHR ''/'' \<notin> set front \<Longrightarrow> split_first ''/'' front = None"
  by (induction front) (auto simp: startswith_def)

lemma split_first_slash:
  "CHR ''/'' \<notin> set front \<Longrightarrow> split_first ''/'' (front @ CHR ''/'' # p) = Some (front, p)"
  by (induction front) (auto simp: startswith_def)

lemma url_path:
  assumes "sch = ''http'' \<or> sch = ''https''" "CHR ''/'' \<notin> set front"
    "rest = [] \<and> p = [] \<or> rest = CHR ''/'' # p"
  shows "(case index (split1 (sch @ ''://'' @ front @ rest) ''://'') 1 of
            Inl e \<Rightarrow> []
          | Inr r \<Rightarrow> (case index (split1 r ''/'') 1 of Inl e \<Rightarrow> [] | Inr q \<Rightarrow> q)) = p"
proof -
  have "split1 (sch @ ''://'' @ front @ rest) ''://'' = [sch, front @ rest]"
    unfolding split1_def by (simp only: split_first_scheme[OF assms(1)] option.case prod.case)
  then have 1: "index (split1 (sch @ ''://'' @ front @ rest) ''://'') 1 = Inr (front @ rest)"
    by (simp add: index_def)
  have 2: "(case index (split1 (front @ rest) ''/'') 1 of Inl e \<Rightarrow> [] | Inr q \<Rightarrow> q) = p"
    using assms(3)
    by (auto simp: split1_def index_def split_first_no_slash[OF assms(2)]
          split_first_slash[OF assms(2)])
  show ?thesis by (simp only: 1 2 sum.case)
qed

lemma url_scheme:
  "sch = ''http'' \<or> sch = ''https'' \<Longrightarrow>
     startswith (sch @ ''://'' @ x) ''http://'' \<or> startswith (sch @ ''://'' @ x) ''https://''"
  by (auto simp: startswith_def)

lemma forwarded_header_total: "\<exists>v. forwarded_header
    (AList.update ''X-Host'' hh (AList.delete ''X-Forwarded-For'' h0)) seed = Inr v"
  using forwarded_header_popped[OF popped_headers] by blast

lemma request_bad_headers:
  assumes "endpoints self \<noteq> []"
    and "startswith url ''http://'' \<or> startswith url ''https://''"
  shows "request self seed1 seed2 meth url (HOther True) kwargs =
           (Inl (ValueError ''Headers must be a dictionary-like object''), HOther True)"
  using assms by (auto simp: request_def Let_def choice_def headers_or_dict_def)

lemmas request_eval = request_def Let_def demo_pool_def startswith_def choice_def randbelow_def
  split1_def index_def headers_or_dict_def forwarded_header_def randint_def pack_I_def
  AList.delete_eq str_nat_small str_nat_large digit_simps digit_Suc_0

text \<open>
  Claim C8.  A routing call on a pool without endpoints raises the RuntimeError
  that tells the caller to start the pool, whatever the URL and the headers are:
  nothing is handed to the HTTP client and the caller's headers are untouched.
\<close>

theorem request_empty_pool:
  "endpoints self = [] \<Longrightarrow>
     request self seed1 seed2 meth url hdrs kwargs = (Inl RuntimeError, hdrs)"
  by (simp add: request_def)

theorem request_empty_pool_witness:
  "endpoints demo_pool = [] \<and>
   request demo_pool 3 4 ''GET'' ''ftp://origin/a'' (HDict [(''X-Forwarded-For'', ''1.2.3.4'')]) [] =
     (Inl RuntimeError, HDict [(''X-Forwarded-For'', ''1.2.3.4'')])"
  using request_empty_pool[of demo_pool 3 4 "''GET''" "''ftp://origin/a''"
      "HDict [(''X-Forwarded-For'', ''1.2.3.4'')]" "[]"]
  by (simp add: demo_pool_def)

text \<open>
  Claim C5, as the code has it.  Let the URL be \<open>sch://front\<close> followed by
  nothing or by a slash and \<open>p\<close>, with \<open>sch\<close> one of http and https and no
  slash in \<open>front\<close>: \<open>p\<close> is the text after the first slash that follows
  \<^verbatim>\<open>://\<close>, and empty without such a slash.  On a pool with endpoints, the call
  hands the HTTP client the URL \<open>https://endpoint/proxy-stage/p\<close> for an
  endpoint of the pool, with the method unchanged; the only other outcome is
  the ValueError for headers that are not a dict.  \<open>front\<close> is the host and
  whatever stands before the first slash: a query that comes before any
  slash is part of it.
\<close>

theorem request_rewrites_url:
  assumes "endpoints self \<noteq> []"
    and "sch = ''http'' \<or> sch = ''https''"
    and "CHR ''/'' \<notin> set front"
    and "rest = [] \<and> p = [] \<or> rest = CHR ''/'' # p"
    and "url = sch @ ''://'' @ front @ rest"
  shows "endpoints self ! (seed1 mod length (endpoints self)) \<in> set (endpoints self) \<and>
     (case fst (request self seed1 seed2 meth url hdrs kwargs) of
        Inr out \<Rightarrow>
          out_method out = meth \<and>
          out_url out = ''https://'' @ endpoints self ! (seed1 mod length (endpoints self)) @
                          ''/proxy-stage/'' @ p
      | Inl e \<Rightarrow> hdrs = HOther True \<and> e = ValueError ''Headers must be a dictionary-like object'')"
proof -
  have u: "startswith url ''http://'' \<or> startswith url ''https://''"
    unfolding assms(5) by (rule url_scheme[OF assms(2)])
  have m: "endpoints self ! (seed1 mod length (endpoints self)) \<in> set (endpoints self)"
    using assms(1) by simp
  show ?thesis
  proof (cases "hdrs = HOther True")
    case True
    then show ?thesis using request_bad_headers[OF assms(1) u] m by simp
  next
    case False
    then obtain h0 own where h: "headers_or_dict hdrs = Inr (h0, own)"
      using headers_or_dict_cases by blast
    obtain v where f: "forwarded_header (AList.update ''X-Host'' (host_header self)
              (AList.delete ''X-Forwarded-For'' h0)) seed2 = Inr v"
      using forwarded_header_total by blast
    note r = request_valid[OF assms(1) u h f, of seed1 meth kwargs,
        unfolded assms(5) url_path[OF assms(2,3,4)] ]
    show ?thesis
      unfolding assms(5) using m False by (simp only: r sum.case outgoing.simps simp_thms)
  qed
qed

theorem request_rewrites_url_witness:
  "fst (request (demo_pool\<lparr>endpoints := [''e1''], active := True\<rparr>) 7 9 ''GET''
     ''https://origin/a/b?x=1'' NoHeaders []) =
   Inr \<lparr> out_method = ''GET'', out_url = ''https://e1/proxy-stage/a/b?x=1'',
         out_headers = [(''X-Host'', ''ipinfo.io''), (''X-Forwarded-Header'', ''0.0.0.10'')],
         out_kwargs = [] \<rparr>"
  using request_rewrites_url[where self = "demo_pool\<lparr>endpoints := [''e1''], active := True\<rparr>"
      and sch = "''https''" and front = "''origin''" and rest = "''/a/b?x=1''" and p = "''a/b?x=1''"
      and url = "''https://origin/a/b?x=1''" and ?seed1.0 = 7 and ?seed2.0 = 9
      and meth = "''GET''" and hdrs = NoHeaders and kwargs = "[]"]
  by (simp add: request_def Let_def demo_pool_def startswith_def choice_def randbelow_def
      split1_def index_def headers_or_dict_def forwarded_header_def randint_def pack_I_def
      AList.delete_eq str_nat_small str_nat_large digit_simps digit_Suc_0)

text \<open>
  The claim as stated fails for a URL whose query comes before any path slash.
  \<^verbatim>\<open>https://origin?x=1\<close> has no slash after the host, so the path is empty
  and the query is lost; in \<^verbatim>\<open>https://origin?next=/home\<close> the first slash is
  inside the query, and what follows it is sent as the path.
\<close>

theorem request_query_counterexample:
  "fst (request (demo_pool\<lparr>endpoints := [''e1''], active := True\<rparr>) 7 9 ''GET''
     ''https://origin?x=1'' NoHeaders []) =
   Inr \<lparr> out_method = ''GET'', out_url = ''https://e1/proxy-stage/'',
         out_headers = [(''X-Host'', ''ipinfo.io''), (''X-Forwarded-Header'', ''0.0.0.10'')],
         out_kwargs = [] \<rparr> \<and>
   fst (request (demo_pool\<lparr>endpoints := [''e1''], active := True\<rparr>) 7 9 ''GET''
     ''https://origin?next=/home'' NoHeaders []) =
   Inr \<lparr> out_method = ''GET'', out_url = ''https://e1/proxy-stage/home'',
         out_headers = [(''X-Host'', ''ipinfo.io''), (''X-Forwarded-Header'', ''0.0.0.10'')],
         out_kwargs = [] \<rparr>"
  by (simp add: request_eval)

text \<open>
  Claim C10.  When the caller supplied no \<^verbatim>\<open>X-Forwarded-For\<close> header, the
  \<^verbatim>\<open>X-Forwarded-Header\<close> of the outgoing request is the dotted-quad rendering of
  the draw \<^verbatim>\<open>randint(1, 0xffffffff)\<close>, which lies in \<open>[1, 2^32 - 1]\<close>; the value
  has dotted-quad syntax and is not \<open>0.0.0.0\<close>.  Every number of that range is
  the draw for some entropy.
\<close>

theorem synthesized_forwarded_header:
  assumes "endpoints self \<noteq> []"
    and "startswith url ''http://'' \<or> startswith url ''https://''"
    and "hdrs \<noteq> HOther True"
    and "caller_value hdrs ''X-Forwarded-For'' = None"
  shows "(\<exists>out bs v. fst (request self seed1 seed2 meth url hdrs kwargs) = Inr out \<and>
           map_of (out_headers out) ''X-Forwarded-Header'' = Some v \<and>
           1 \<le> randint seed2 1 0xffffffff \<and> randint seed2 1 0xffffffff \<le> 2 ^ 32 - 1 \<and>
           pack_I (randint seed2 1 0xffffffff) = Inr bs \<and> inet_ntoa bs = Inr v \<and>
           is_dotted_quad v \<and> v \<noteq> ''0.0.0.0'') \<and>
         (\<forall>n. 1 \<le> n \<and> n \<le> 2 ^ 32 - 1 \<longrightarrow> randint (n - 1) 1 0xffffffff = n)"
proof -
  from assms(3) obtain h0 own where h: "headers_or_dict hdrs = Inr (h0, own)"
    using headers_or_dict_cases by blast
  let ?h2 = "AList.update ''X-Host'' (host_header self) (AList.delete ''X-Forwarded-For'' h0)"
  have "\<exists>bs v. pack_I (randint seed2 1 0xffffffff) = Inr bs \<and> inet_ntoa bs = Inr v \<and>
       forwarded_header ?h2 seed2 = Inr v \<and> is_dotted_quad v \<and> v \<noteq> ''0.0.0.0''"
    by (rule forwarded_header_popped[OF popped_headers])
  then obtain bs v where
    f: "pack_I (randint seed2 1 0xffffffff) = Inr bs" "inet_ntoa bs = Inr v"
       "forwarded_header ?h2 seed2 = Inr v" "is_dotted_quad v" "v \<noteq> ''0.0.0.0''"
    by blast
  note r = request_valid[OF assms(1,2) h f(3), of seed1 meth kwargs]
  have "map_of (AList.update ''X-Forwarded-Header'' v ?h2) ''X-Forwarded-Header'' = Some v"
    by (simp add: AList.update_conv')
  then have a: "\<exists>out bs v. fst (request self seed1 seed2 meth url hdrs kwargs) = Inr out \<and>
           map_of (out_headers out) ''X-Forwarded-Header'' = Some v \<and>
           1 \<le> randint seed2 1 0xffffffff \<and> randint seed2 1 0xffffffff \<le> 2 ^ 32 - 1 \<and>
           pack_I (randint seed2 1 0xffffffff) = Inr bs \<and> inet_ntoa bs = Inr v \<and>
           is_dotted_quad v \<and> v \<noteq> ''0.0.0.0''"
    using r f randint_draw[of seed2] by auto
  have b: "\<forall>n. 1 \<le> n \<and> n \<le> 2 ^ 32 - 1 \<longrightarrow> randint (n - 1) 1 0xffffffff = n"
    using randint_onto by blast
  show ?thesis using a b by blast
qed

theorem synthesized_forwarded_header_witness:
  "endpoints (demo_pool\<lparr>endpoints := [''e1''], active := True\<rparr>) \<noteq> [] \<and>
   startswith ''https://ipinfo.io/json'' ''https://'' \<and>
   caller_value (HDict [(''Accept'', ''*/*'')]) ''X-Forwarded-For'' = None \<and>
   fst (request (demo_pool\<lparr>endpoints := [''e1''], active := True\<rparr>) 0 16909059 ''GET''
          ''https://ipinfo.io/json'' (HDict [(''Accept'', ''*/*'')]) []) =
     Inr \<lparr> out_method = ''GET'', out_url = ''https://e1/proxy-stage/json'',
           out_headers = [(''Accept'', ''*/*''), (''X-Host'', ''ipinfo.io''),
                          (''X-Forwarded-Header'', ''1.2.3.4'')],
           out_kwargs = [] \<rparr> \<and>
   is_dotted_quad ''1.2.3.4''"
  using synthesized_forwarded_header[where self = "demo_pool\<lparr>endpoints := [''e1''], active := True\<rparr>"
      and url = "''https://ipinfo.io/json''" and hdrs = "HDict [(''Accept'', ''*/*'')]"
      and ?seed1.0 = 0 and ?seed2.0 = 16909059 and meth = "''GET''" and kwargs = "[]"]
  by (simp add: request_eval caller_value_def is_dotted_quad_def is_octet_def is_digit_def
      dec_value_def)

text \<open>
  Claim C3 does not hold of the code.  \<^verbatim>\<open>request\<close> pops \<^verbatim>\<open>X-Forwarded-For\<close> from
  the headers before it reads it back with \<^verbatim>\<open>headers.get\<close>, so the read finds
  nothing and the random address is used: a caller that supplies \<open>1.2.3.4\<close>
  gets \<open>0.0.0.6\<close> (the draw for entropy 5) sent in \<^verbatim>\<open>X-Forwarded-Header\<close>, and
  the caller's dict has lost its value.
\<close>

theorem request_discards_caller_forwarded_for:
  "request (demo_pool\<lparr>endpoints := [''e1''], active := True\<rparr>) 0 5 ''GET'' ''https://origin/a''
     (HDict [(''X-Forwarded-For'', ''1.2.3.4'')]) [] =
   (Inr \<lparr> out_method = ''GET'', out_url = ''https://e1/proxy-stage/a'',
           out_headers = [(''X-Host'', ''ipinfo.io''), (''X-Forwarded-Header'', ''0.0.0.6'')],
           out_kwargs = [] \<rparr>,
    HDict [(''X-Host'', ''ipinfo.io''), (''X-Forwarded-Header'', ''0.0.0.6'')])"
  by (simp add: request_eval)

section \<open>Provisioning run\<close>

lemma consume_endpoints:
  "endpoints (consume self r) = endpoints self @ (case r of None \<Rightarrow> [] | Some e \<Rightarrow> [e])"
  by (cases r) (simp_all add: consume_def Let_def)

lemma consume_active: "active (consume self r) = (active self \<or> r \<noteq> None)"
  by (cases r) (simp_all add: consume_def Let_def)

lemma consume_None: "consume self None = self"
  by (simp add: consume_def)

lemma start_states_Cons: "\<exists>rest. start_states self rs = self # rest"
  by (cases "(self, rs)" rule: start_states.cases) auto

lemma start_states_hd: "start_states self rs ! 0 = self"
  using start_states_Cons[of self rs] by auto

lemma start_states_grow_from:
  "p \<in> set (start_states self rs) \<Longrightarrow> \<exists>more. endpoints p = endpoints self @ more"
proof (induction self rs rule: start_states.induct)
  case (3 self endpoint ts)
  then show ?case by (auto simp: consume_endpoints)
qed auto

lemma start_states_active_from:
  "p \<in> set (start_states self rs) \<Longrightarrow> active self \<Longrightarrow> active p"
  by (induction self rs rule: start_states.induct) (auto simp: consume_active)

lemma start_states_inv:
  "p \<in> set (start_states self rs) \<Longrightarrow> (active self \<longleftrightarrow> endpoints self \<noteq> []) \<Longrightarrow>
     (active p \<longleftrightarrow> endpoints p \<noteq> [])"
proof (induction self rs rule: start_states.induct)
  case (3 self endpoint ts)
  have "active (consume self endpoint) \<longleftrightarrow> endpoints (consume self endpoint) \<noteq> []"
    using 3(3) by (cases endpoint) (simp_all add: consume_active consume_endpoints)
  then show ?case using 3 by auto
qed auto

lemma start_states_grow:
  "i \<le> j \<Longrightarrow> j < length (start_states self rs) \<Longrightarrow>
     \<exists>more. endpoints (start_states self rs ! j) = endpoints (start_states self rs ! i) @ more"
proof (induction self rs arbitrary: i j rule: start_states.induct)
  case (3 self endpoint ts)
  let ?rest = "start_states (consume self endpoint) ts"
  show ?case
  proof (cases i)
    case 0
    have "start_states self (Inr endpoint # ts) ! j \<in> set (start_states self (Inr endpoint # ts))"
      using 3(3) by (rule nth_mem)
    then have "\<exists>more. endpoints (start_states self (Inr endpoint # ts) ! j) = endpoints self @ more"
      by (rule start_states_grow_from)
    then show ?thesis unfolding 0 start_states_hd .
  next
    case (Suc i')
    then obtain j' where j: "j = Suc j'" using 3(2) by (cases j) auto
    have "\<exists>more. endpoints (?rest ! j') = endpoints (?rest ! i') @ more"
      using 3 Suc j by (intro 3(1)) auto
    then show ?thesis using Suc j by simp
  qed
qed auto

lemma start_states_active_mono:
  "i \<le> j \<Longrightarrow> j < length (start_states self rs) \<Longrightarrow> active (start_states self rs ! i) \<Longrightarrow>
     active (start_states self rs ! j)"
proof (induction self rs arbitrary: i j rule: start_states.induct)
  case (3 self endpoint ts)
  let ?rest = "start_states (consume self endpoint) ts"
  show ?case
  proof (cases i)
    case 0
    have "start_states self (Inr endpoint # ts) ! j \<in> set (start_states self (Inr endpoint # ts))"
      using 3(3) by (rule nth_mem)
    moreover have "active self" using 3(4) 0 by simp
    ultimately show ?thesis by (rule start_states_active_from)
  next
    case (Suc i')
    then obtain j' where j: "j = Suc j'" using 3(2) by (cases j) auto
    have "active (?rest ! j')"
      using 3 Suc j by (intro 3(1)[of i' j']) auto
    then show ?thesis using j by simp
  qed
qed auto

lemma flips_all_true: "\<forall>b \<in> set bs. b \<Longrightarrow> flips bs = 0"
  by (induction bs rule: flips.induct) auto

lemma flips_active:
  "active self \<Longrightarrow> flips (map active (start_states self rs)) = 0"
  by (rule flips_all_true) (auto dest: start_states_active_from)

lemma last_active:
  "active self \<Longrightarrow> active (last (start_states self rs))"
proof -
  assume a: "active self"
  have "start_states self rs \<noteq> []" using start_states_Cons[of self rs] by auto
  then have "last (start_states self rs) \<in> set (start_states self rs)" by simp
  then show ?thesis using a by (rule start_states_active_from)
qed

lemma flips_start_states:
  "\<not> active self \<Longrightarrow>
     flips (map active (start_states self rs)) = (if active (last (start_states self rs)) then 1 else 0)"
proof (induction self rs rule: start_states.induct)
  case (3 self endpoint ts)
  let ?c = "consume self endpoint"
  obtain rest where r: "start_states ?c ts = ?c # rest" using start_states_Cons by blast
  show ?case
  proof (cases endpoint)
    case None
    then have "\<not> active ?c" using 3(2) by (simp add: consume_active)
    then show ?thesis using 3 r by simp
  next
    case (Some e)
    then have a: "active ?c" by (simp add: consume_active)
    have "flips (map active (start_states ?c ts)) = 0" using a by (rule flips_active)
    moreover have "active (last (start_states ?c ts))" using a by (rule last_active)
    ultimately show ?thesis using 3(2) a r by simp
  qed
qed auto

lemma start_loop_last: "snd (start_loop self rs) = last (start_states self rs)"
proof (induction self rs rule: start_states.induct)
  case (3 self endpoint ts)
  obtain rest where "start_states (consume self endpoint) ts = consume self endpoint # rest"
    using start_states_Cons by blast
  then show ?case using 3 by simp
qed auto

lemma start_first_endpoint:
  "k < length rs \<Longrightarrow> rs ! k = Inr (Some e) \<Longrightarrow> \<forall>j<k. rs ! j = Inr None \<Longrightarrow>
     Suc k < length (start_states self rs) \<and> start_states self rs ! k = self \<and>
     start_states self rs ! Suc k = consume self (Some e)"
proof (induction k arbitrary: rs)
  case 0
  then obtain ts where "rs = Inr (Some e) # ts" by (cases rs) auto
  then show ?case using start_states_Cons[of "consume self (Some e)" ts] by auto
next
  case (Suc k)
  then obtain ts where rs: "rs = Inr None # ts" by (cases rs) auto
  have "Suc k < length (start_states self ts) \<and> start_states self ts ! k = self \<and>
     start_states self ts ! Suc k = consume self (Some e)"
    using Suc.prems rs by (intro Suc.IH) auto
  then show ?case using rs by (simp add: consume_None)
qed

lemma start_loop_all_absent:
  "\<forall>r \<in> set rs. r = Inr None \<Longrightarrow> start_loop self rs = (Inr (), self)"
  by (induction self rs rule: start_loop.induct) (auto simp: consume_None)

text \<open>
  Claim C4.  A freshly constructed pool is inactive and has no endpoints.  For a
  provisioning run from such a pool over any sequence of task results, taken
  in any completion order, with \<open>start_states\<close> the pool at each \<^verbatim>\<open>await task\<close>
  and at the end: the pool is inactive at the start; at every point it is active
  exactly when it has an endpoint; the endpoint list only grows and the flag
  never falls back; the flag goes from false to true once if the run ends with
  an endpoint and never otherwise; the step that takes the first result that is
  not None is the one that activates the pool, with that endpoint as its only
  one; and if every result is None the pool ends inactive and empty.
\<close>

theorem start_activation:
  assumes "\<not> active self" and "endpoints self = []"
  shows "(\<forall>tgt kid ks hh ca v w p.
        init tgt kid ks hh ca v w = Inr p \<longrightarrow> \<not> active p \<and> endpoints p = []) \<and>
    \<not> active (start_states self rs ! 0) \<and>
    (\<forall>i < length (start_states self rs).
        active (start_states self rs ! i) \<longleftrightarrow> endpoints (start_states self rs ! i) \<noteq> []) \<and>
    (\<forall>i j. i \<le> j \<and> j < length (start_states self rs) \<longrightarrow>
        (\<exists>more. endpoints (start_states self rs ! j) = endpoints (start_states self rs ! i) @ more) \<and>
        (active (start_states self rs ! i) \<longrightarrow> active (start_states self rs ! j))) \<and>
    flips (map active (start_states self rs)) =
        (if endpoints (snd (start_loop self rs)) = [] then 0 else 1) \<and>
    (\<forall>k e. k < length rs \<and> rs ! k = Inr (Some e) \<and> (\<forall>j<k. rs ! j = Inr None) \<longrightarrow>
        Suc k < length (start_states self rs) \<and>
        \<not> active (start_states self rs ! k) \<and> endpoints (start_states self rs ! k) = [] \<and>
        active (start_states self rs ! Suc k) \<and> endpoints (start_states self rs ! Suc k) = [e]) \<and>
    ((\<forall>r \<in> set rs. r = Inr None) \<longrightarrow>
        \<not> active (snd (start_loop self rs)) \<and> endpoints (snd (start_loop self rs)) = [])"
proof -
  let ?sts = "start_states self rs"
  have inv0: "active self \<longleftrightarrow> endpoints self \<noteq> []" using assms by simp
  have a: "\<not> active (?sts ! 0)" using assms(1) by (simp add: start_states_hd)
  have b: "\<forall>i < length ?sts. active (?sts ! i) \<longleftrightarrow> endpoints (?sts ! i) \<noteq> []"
    using start_states_inv[OF nth_mem inv0] by blast
  have c: "\<forall>i j. i \<le> j \<and> j < length ?sts \<longrightarrow>
        (\<exists>more. endpoints (?sts ! j) = endpoints (?sts ! i) @ more) \<and>
        (active (?sts ! i) \<longrightarrow> active (?sts ! j))"
    using start_states_grow start_states_active_mono by blast
  have ne: "?sts \<noteq> []" using start_states_Cons[of self rs] by auto
  have "last ?sts \<in> set ?sts" using ne by simp
  then have "active (last ?sts) \<longleftrightarrow> endpoints (last ?sts) \<noteq> []"
    using inv0 by (rule start_states_inv)
  then have d: "flips (map active ?sts) = (if endpoints (snd (start_loop self rs)) = [] then 0 else 1)"
    using flips_start_states[OF assms(1), of rs] by (simp add: start_loop_last)
  have e: "\<forall>k e. k < length rs \<and> rs ! k = Inr (Some e) \<and> (\<forall>j<k. rs ! j = Inr None) \<longrightarrow>
        Suc k < length ?sts \<and> \<not> active (?sts ! k) \<and> endpoints (?sts ! k) = [] \<and>
        active (?sts ! Suc k) \<and> endpoints (?sts ! Suc k) = [e]"
  proof (intro allI impI)
    fix k e
    assume h: "k < length rs \<and> rs ! k = Inr (Some e) \<and> (\<forall>j<k. rs ! j = Inr None)"
    then have "Suc k < length ?sts \<and> ?sts ! k = self \<and> ?sts ! Suc k = consume self (Some e)"
      by (intro start_first_endpoint) auto
    then show "Suc k < length ?sts \<and> \<not> active (?sts ! k) \<and> endpoints (?sts ! k) = [] \<and>
        active (?sts ! Suc k) \<and> endpoints (?sts ! Suc k) = [e]"
      using assms by (simp add: consume_active consume_endpoints)
  qed
  have f: "(\<forall>r \<in> set rs. r = Inr None) \<longrightarrow>
        \<not> active (snd (start_loop self rs)) \<and> endpoints (snd (start_loop self rs)) = []"
    using assms by (auto simp: start_loop_all_absent)
  have g: "\<forall>tgt kid ks hh ca v w p.
        init tgt kid ks hh ca v w = Inr p \<longrightarrow> \<not> active p \<and> endpoints p = []"
    using init_fresh by blast
  show ?thesis using a b c d e f g by blast
qed

theorem start_activation_witness:
  "init ''https://ipinfo.io'' None None None False False True = Inr demo_pool \<and>
   \<not> active demo_pool \<and> endpoints demo_pool = [] \<and>
   map active (start_states demo_pool [Inr None, Inr (Some ''e1''), Inr None, Inr (Some ''e2'')]) =
     [False, False, True, True, True] \<and>
   map endpoints (start_states demo_pool [Inr None, Inr (Some ''e1''), Inr None, Inr (Some ''e2'')]) =
     [Nil, Nil, [''e1''], [''e1''], [''e1'', ''e2''] ] \<and>
   flips (map active (start_states demo_pool [Inr None, Inr (Some ''e1''), Inr None, Inr (Some ''e2'')])) = 1"
  using start_activation[of demo_pool "[Inr None, Inr (Some ''e1''), Inr None, Inr (Some ''e2'')]"]
    init_demo_pool
  by (simp add: demo_pool_def consume_def)

section \<open>Provisioning one region\<close>

lemma get_apis_error:
  "client (GetRestApis region pos) s = (Inl e, s') \<Longrightarrow> is_client_or_connection_error e \<Longrightarrow>
     get_apis client region pos apis s = Some (Inr [], s', [Call (GetRestApis region pos)])"
  by (subst get_apis.simps) simp

lemma get_apis_last_page:
  "client (GetRestApis region pos) s = (Inr (RestApis its None), s') \<Longrightarrow>
     get_apis client region pos apis s = Some (Inr (apis @ its), s', [Call (GetRestApis region pos)])"
  by (subst get_apis.simps) simp


lemma get_apis_only_lists:
  fixes client :: "'s plane" and s :: 's
  assumes "get_apis client region pos apis s = Some y"
  shows "(\<forall>ev \<in> set (snd (snd y)). \<exists>p. ev = Call (GetRestApis region p)) \<and>
         ((\<forall>p t. snd (client (GetRestApis region p) t) = t) \<longrightarrow> fst (snd y) = s)"
proof (rule get_apis.raw_induct[where P = "\<lambda>(client :: 's plane) region pos apis s y.
    (\<forall>ev \<in> set (snd (snd y)). \<exists>p. ev = Call (GetRestApis region p)) \<and>
    ((\<forall>p t. snd (client (GetRestApis region p) t) = t) \<longrightarrow> fst (snd y) = s)", OF _ assms],
    goal_cases)
  case (1 get_apis client region position apis s y)
  obtain r s' where c: "client (GetRestApis region position) s = (r, s')" by (cases "client (GetRestApis region position) s")
  have ro: "(\<forall>p t. snd (client (GetRestApis region p) t) = t) \<longrightarrow> s' = s"
    using c by (metis snd_conv)
  show ?case
  proof (cases r)
    case (Inl e)
    then show ?thesis using 1(2) c ro by (auto split: if_splits)
  next
    case (Inr gateways)
    show ?thesis
    proof (cases "reply_items gateways")
      case (Inl e)
      then show ?thesis using 1(2) c ro Inr by auto
    next
      case its: (Inr its)
      show ?thesis
      proof (cases "reply_position gateways")
        case None
        then show ?thesis using 1(2) c ro Inr its by auto
      next
        case (Some p)
        then obtain y' where y': "get_apis client region (Some p) (apis @ its) s' = Some y'"
          and y: "y = (fst y', fst (snd y'), Call (GetRestApis region position) # snd (snd y'))"
          using 1(2) c Inr its by (auto simp: bind_eq_Some_conv)
        from 1(1)[OF y'] show ?thesis using y ro by auto
      qed
    qed
  qed
qed

lemma and_then_Inl: "and_then (Inl e, s, evs) f = (Inl e, s, evs)"
  by (simp add: and_then_def)

lemma and_then_Inr:
  "and_then (Inr x, s, evs) f = (case f x s of (r, s', evs') \<Rightarrow> (r, s', evs @ evs'))"
  by (simp add: and_then_def)

lemma try_block_force_error:
  "client (CreateRestApi region (name self)) s = (Inl e, s1) \<Longrightarrow>
     try_block client self region True s = Some (Inl e, s1, [Call (CreateRestApi region (name self))])"
  by (simp add: try_block_def invoke_def and_then_Inl)

lemma try_block_listed_error:
  "get_apis client region None [] s = Some (Inr apis, s0, evs0) \<Longrightarrow>
   find (\<lambda>a. startswith (name_or_empty a) (name self)) apis = None \<Longrightarrow>
   client (CreateRestApi region (name self)) s0 = (Inl e, s1) \<Longrightarrow>
     try_block client self region False s =
       Some (Inl e, s1, evs0 @ [Call (CreateRestApi region (name self))])"
  by (simp add: try_block_def invoke_def and_then_Inl and_then_Inr)


lemma create_api_unfold:
  "create_api depth client self region force s =
     create_api_body
       (case depth of
          0 \<Rightarrow> (\<lambda>s1. Some (Inl RecursionError, s1, []))
        | Suc d \<Rightarrow> create_api d client self region force)
       client self region force s"
  by (cases depth) simp_all

lemma create_api_absent:
  "try_block client self region force s = Some (Inl e, s1, evs) \<Longrightarrow>
   e = EndpointConnectionError \<or> (\<exists>code. e = ClientError code \<and> code \<noteq> ''TooManyRequestsException'') \<Longrightarrow>
     create_api depth client self region force s = Some (Inr None, s1, evs)"
  by (subst create_api_unfold) (auto simp: create_api_body_def)

lemma create_api_retry:
  "try_block client self region force s =
      Some (Inl (ClientError ''TooManyRequestsException''), s1, evs) \<Longrightarrow>
     create_api (Suc depth) client self region force s =
       Option.bind (create_api depth client self region force s1)
         (\<lambda>(r, s2, evs'). Some (r, s2, evs @ [Sleep 3] @ evs'))"
  by (simp add: create_api_body_def)

lemma create_api_exhausted:
  "try_block client self region force s =
      Some (Inl (ClientError ''TooManyRequestsException''), s1, evs) \<Longrightarrow>
     create_api 0 client self region force s = Some (Inl RecursionError, s1, evs @ [Sleep 3])"
  by (simp add: create_api_body_def)


lemma create_api_created:
  "try_block client self region force s = Some (Inr (Inr aid), s1, evs) \<Longrightarrow>
     create_api depth client self region force s =
       (case setup_api client self region aid s1 of (r, s2, evs') \<Rightarrow> Some (r, s2, evs @ evs'))"
  by (subst create_api_unfold) (simp add: create_api_body_def)

lemma create_api_no_retry:
  assumes "create_api 0 client self region force s = Some (r, s', evs)"
    and "r \<noteq> Inl RecursionError"
  shows "create_api depth client self region force s = Some (r, s', evs)"
proof (cases "\<exists>s1 evs1. try_block client self region force s =
                Some (Inl (ClientError ''TooManyRequestsException''), s1, evs1)")
  case True
  then obtain s1 evs1 where "try_block client self region force s =
                Some (Inl (ClientError ''TooManyRequestsException''), s1, evs1)" by blast
  from create_api_exhausted[OF this] assms show ?thesis by simp
next
  case False
  have "create_api_body retry client self region force s =
        create_api_body retry' client self region force s" for retry retry'
    using False
    by (auto simp: create_api_body_def split: option.splits sum.splits py_exn.splits prod.splits)
  then have "create_api depth client self region force s = create_api 0 client self region force s"
    by (simp only: create_api_unfold[of depth] create_api_unfold[of 0])
  with assms(1) show ?thesis by simp
qed

subsection \<open>Rate-limited attempts\<close>

lemma throttled_Suc:
  assumes "throttled client self region force (Suc n) s = Some (sn, evn)"
  obtains s1 evs evs' where
    "try_block client self region force s =
       Some (Inl (ClientError ''TooManyRequestsException''), s1, evs)"
    "throttled client self region force n s1 = Some (sn, evs')"
    "evn = evs @ [Sleep 3] @ evs'"
  using assms
  by (auto split: option.splits sum.splits py_exn.splits prod.splits if_splits)

lemma try_block_calls:
  assumes "try_block client self region force s = Some (r, s1, evs)"
  shows "\<forall>ev \<in> set evs. \<exists>c. ev = Call c"
proof -
  have c: "\<forall>ev \<in> set (snd (snd (and_then (invoke client (CreateRestApi region (name self)) t)
              (\<lambda>r s. (case reply_id r of Inl e \<Rightarrow> (Inl e, s, [])
                       | Inr aid \<Rightarrow> (Inr (Inr aid :: string + string), s, [])))))).
            \<exists>c. ev = Call c" for t
    by (auto simp: and_then_def invoke_def split: prod.splits sum.splits)
  show ?thesis
  proof (cases force)
    case True
    with assms c[of s] show ?thesis by (auto simp: try_block_def)
  next
    case False
    with assms obtain m where g: "get_apis client region None [] s = Some m"
      by (auto simp: try_block_def split: option.splits)
    from get_apis_only_lists[OF g] have l: "\<forall>ev \<in> set (snd (snd m)). \<exists>c. ev = Call c" by blast
    obtain r0 s0 evs0 where m: "m = (r0, s0, evs0)" by (cases m)
    show ?thesis
    proof (cases r0)
      case (Inl e)
      with assms False g m l show ?thesis by (auto simp: try_block_def and_then_def)
    next
      case (Inr apis)
      show ?thesis
      proof (cases "find (\<lambda>a. startswith (name_or_empty a) (name self)) apis")
        case None
        with assms False g m l Inr c[of s0] show ?thesis
          by (auto simp: try_block_def and_then_Inr split: prod.splits)
      next
        case (Some a)
        with assms False g m l Inr show ?thesis by (auto simp: try_block_def and_then_Inr)
      qed
    qed
  qed
qed

lemma throttled_sleeps:
  "throttled client self region force n s = Some (sn, evn) \<Longrightarrow>
     count_list evn (Sleep 3) = n \<and> (\<forall>d. Sleep d \<in> set evn \<longrightarrow> d = 3)"
proof (induction n arbitrary: s evn)
  case 0
  then show ?case by simp
next
  case (Suc n)
  from Suc.prems obtain s1 evs evs' where
    t: "try_block client self region force s =
       Some (Inl (ClientError ''TooManyRequestsException''), s1, evs)"
    and r: "throttled client self region force n s1 = Some (sn, evs')"
    and e: "evn = evs @ [Sleep 3] @ evs'"
    by (rule throttled_Suc)
  from try_block_calls[OF t] have c: "\<forall>ev \<in> set evs. \<exists>c. ev = Call c" .
  then have "count_list evs (Sleep 3) = 0" by (auto simp: count_list_0_iff)
  moreover have "\<forall>d. Sleep d \<notin> set evs" using c by auto
  ultimately show ?case using Suc.IH[OF r] e by auto
qed

lemma throttled_create_api:
  "throttled client self region force n s = Some (sn, evn) \<Longrightarrow> n \<le> depth \<Longrightarrow>
     create_api depth client self region force s =
       Option.bind (create_api (depth - n) client self region force sn)
         (\<lambda>(r, s', evs). Some (r, s', evn @ evs))"
proof (induction n arbitrary: s evn depth)
  case 0
  then have z: "s = sn" "evn = []" by simp_all
  show ?case unfolding z
    by (cases "create_api depth client self region force sn") auto
next
  case (Suc n)
  from Suc.prems(1) obtain s1 evs evs' where
    t: "try_block client self region force s =
       Some (Inl (ClientError ''TooManyRequestsException''), s1, evs)"
    and r: "throttled client self region force n s1 = Some (sn, evs')"
    and e: "evn = evs @ [Sleep 3] @ evs'"
    by (rule throttled_Suc)
  from Suc.prems(2) obtain d where d: "depth = Suc d" "n \<le> d" by (cases depth) auto
  show ?case
    unfolding d(1) create_api_retry[OF t] Suc.IH[OF r d(2)] e
    by (cases "create_api (d - n) client self region force sn") auto
qed

lemma throttled_exhausted:
  "throttled client self region force (Suc depth) s = Some (sd, evd) \<Longrightarrow>
     create_api depth client self region force s = Some (Inl RecursionError, sd, evd)"
proof (induction depth arbitrary: s evd)
  case 0
  from 0 obtain s1 evs evs' where
    t: "try_block client self region force s =
       Some (Inl (ClientError ''TooManyRequestsException''), s1, evs)"
    and r: "throttled client self region force 0 s1 = Some (sd, evs')"
    and e: "evd = evs @ [Sleep 3] @ evs'"
    by (rule throttled_Suc)
  show ?case using create_api_exhausted[OF t] r e by simp
next
  case (Suc depth)
  from Suc.prems obtain s1 evs evs' where
    t: "try_block client self region force s =
       Some (Inl (ClientError ''TooManyRequestsException''), s1, evs)"
    and r: "throttled client self region force (Suc depth) s1 = Some (sd, evs')"
    and e: "evd = evs @ [Sleep 3] @ evs'"
    by (rule throttled_Suc)
  show ?case unfolding create_api_retry[OF t] Suc.IH[OF r] e by simp
qed

lemma throttled_prefix:
  "throttled client self region force n s = Some (sn, evn) \<Longrightarrow> m \<le> n \<Longrightarrow>
     \<exists>sm evm. throttled client self region force m s = Some (sm, evm)"
proof (induction m arbitrary: s n sn evn)
  case 0
  then show ?case by simp
next
  case (Suc m)
  then obtain n' where n: "n = Suc n'" "m \<le> n'" by (cases n) auto
  from Suc.prems(1)[unfolded n(1)] obtain s1 evs evs' where
    t: "try_block client self region force s =
       Some (Inl (ClientError ''TooManyRequestsException''), s1, evs)"
    and r: "throttled client self region force n' s1 = Some (sn, evs')"
    by (rule throttled_Suc)
  from Suc.IH[OF r n(2)] obtain sm evm where
    "throttled client self region force m s1 = Some (sm, evm)" by blast
  then show ?case using t by simp
qed

subsection \<open>Evaluation on the simulated plane\<close>

lemma sim_no_fault:
  "policy c (budget s) = None \<Longrightarrow>
   sim_plane policy c s =
     (case c of
             GetRestApis region pos \<Rightarrow>
               (let every = region_apis region s;
                    off = decode_position pos (length every)
                in (Inr (RestApis (take (page_size s) (drop off every))
                          (if off + page_size s < length every
                           then Some (str_nat (off + page_size s)) else None)), s))
           | CreateRestApi region nm \<Rightarrow>
               (Inr (Created (''api'' @ str_nat (fresh s))),
                s\<lparr>sim_apis := sim_apis s @ [(region, Api (''api'' @ str_nat (fresh s)) (Some nm))],
                  fresh := Suc (fresh s)\<rparr>)
           | GetResources region aid \<Rightarrow> (Inr (Resources [''root'']), s)
           | CreateResource region aid parent part \<Rightarrow> (Inr (Created ''proxy''), s)
           | DeleteRestApi region aid \<Rightarrow>
               (Inr Empty,
                s\<lparr>sim_apis := filter (\<lambda>(r, a). \<not> (r = region \<and> api_id a = aid)) (sim_apis s)\<rparr>)
           | _ \<Rightarrow> (Inr Empty, s))"
  by (simp add: sim_plane_def)

lemma sim_fault:
  "policy c (budget s) = Some e \<Longrightarrow> sim_plane policy c s = (Inl e, s\<lparr>budget := budget s - 1\<rparr>)"
  by (simp add: sim_plane_def)

lemma sim_setup:
  assumes "\<And>c. (\<forall>r n. c \<noteq> CreateRestApi r n) \<Longrightarrow> (\<forall>r p. c \<noteq> GetRestApis r p) \<Longrightarrow> policy c (budget s) = None"
  shows "setup_api (sim_plane policy) self region aid s =
           (Inr (Some (api_address aid region)), s, setup_events self region aid)"
  by (simp add: setup_api_def configure_api_def invoke_def and_then_def sim_no_fault assms
        index_def setup_events_def)

lemma sim_empty_listing:
  "region_apis region s = [] \<Longrightarrow> policy (GetRestApis region None) (budget s) = None \<Longrightarrow>
     get_apis (sim_plane policy) region None [] s = Some (Inr [], s, [Call (GetRestApis region None)])"
  by (rule get_apis_last_page[where its = "[]" and apis = "[]", simplified])
     (simp add: sim_no_fault decode_position_def)

lemma throttled_try_block:
  "try_block (sim_plane throttle_create) self region force
      \<lparr>sim_apis = [], page_size = k, budget = Suc n, fresh = f\<rparr> =
   Some (Inl (ClientError ''TooManyRequestsException''),
         \<lparr>sim_apis = [], page_size = k, budget = n, fresh = f\<rparr>,
         listing_events region force @ [Call (CreateRestApi region (name self))])"
  by (simp add: try_block_def sim_empty_listing region_apis_def throttle_create_def sim_fault invoke_def
        and_then_def listing_events_def)

lemma unthrottled_try_block:
  "try_block (sim_plane throttle_create) self region force
      \<lparr>sim_apis = [], page_size = k, budget = 0, fresh = f\<rparr> =
   Some (Inr (Inr (''api'' @ str_nat f)),
         \<lparr>sim_apis = [(region, Api (''api'' @ str_nat f) (Some (name self)))], page_size = k,
           budget = 0, fresh = Suc f\<rparr>,
         listing_events region force @ [Call (CreateRestApi region (name self))])"
  by (simp add: try_block_def sim_empty_listing region_apis_def throttle_create_def sim_no_fault invoke_def
        and_then_def listing_events_def)

lemma sim_throttled:
  "throttled (sim_plane throttle_create) self region force n
      \<lparr>sim_apis = [], page_size = k, budget = n + m, fresh = f\<rparr> =
   Some (\<lparr>sim_apis = [], page_size = k, budget = m, fresh = f\<rparr>,
         concat (replicate n (listing_events region force @
                   [Call (CreateRestApi region (name self)), Sleep 3])))"
proof (induction n)
  case 0
  show ?case by simp
next
  case (Suc n)
  have "try_block (sim_plane throttle_create) self region force
      \<lparr>sim_apis = [], page_size = k, budget = Suc (n + m), fresh = f\<rparr> =
   Some (Inl (ClientError ''TooManyRequestsException''),
         \<lparr>sim_apis = [], page_size = k, budget = n + m, fresh = f\<rparr>,
         listing_events region force @ [Call (CreateRestApi region (name self))])"
    by (rule throttled_try_block)
  then show ?case using Suc by simp
qed

lemma sim_unthrottled:
  "create_api depth (sim_plane throttle_create) self region force
      \<lparr>sim_apis = [], page_size = k, budget = 0, fresh = f\<rparr> =
   Some (Inr (Some (api_address (''api'' @ str_nat f) region)),
         \<lparr>sim_apis = [(region, Api (''api'' @ str_nat f) (Some (name self)))], page_size = k,
           budget = 0, fresh = Suc f\<rparr>,
         listing_events region force @
         Call (CreateRestApi region (name self)) # setup_events self region (''api'' @ str_nat f))"
proof -
  have "setup_api (sim_plane throttle_create) self region (''api'' @ str_nat f)
          \<lparr>sim_apis = [(region, Api (''api'' @ str_nat f) (Some (name self)))], page_size = k,
            budget = 0, fresh = Suc f\<rparr> =
        (Inr (Some (api_address (''api'' @ str_nat f) region)),
         \<lparr>sim_apis = [(region, Api (''api'' @ str_nat f) (Some (name self)))], page_size = k,
            budget = 0, fresh = Suc f\<rparr>,
         setup_events self region (''api'' @ str_nat f))"
    by (rule sim_setup) (simp add: throttle_create_def split: cp_call.splits)
  then show ?thesis
    by (simp add: create_api_created[OF unthrottled_try_block])
qed

lemmas sim_eval = digit_Suc_Suc_0 create_api_unfold create_api_body_def region_apis_def sim_plane_def healthy_def plane_down_def throttle_all_def listing_down_def resources_denied_def
  throttle_create_def decode_position_def try_block_def setup_api_def configure_api_def
  invoke_def and_then_def index_def api_address_def name_or_empty_def startswith_def
  demo_pool_def str_nat_small digit_simps digit_Suc_0 Let_def





lemma down_create:
  "sim_plane plane_down (CreateRestApi ''us-east-1'' (name demo_pool))
      \<lparr>sim_apis = [], page_size = 500, budget = 0, fresh = 0\<rparr> =
     (Inl EndpointConnectionError, \<lparr>sim_apis = [], page_size = 500, budget = 0, fresh = 0\<rparr>)"
  by (simp add: sim_plane_def plane_down_def)

lemma down_listing:
  "sim_plane plane_down (GetRestApis ''us-east-1'' None)
      \<lparr>sim_apis = [], page_size = 500, budget = 0, fresh = 0\<rparr> =
     (Inl EndpointConnectionError, \<lparr>sim_apis = [], page_size = 500, budget = 0, fresh = 0\<rparr>)"
  by (simp add: sim_plane_def plane_down_def)

lemma down_get_apis:
  "get_apis (sim_plane plane_down) ''us-east-1'' None []
      \<lparr>sim_apis = [], page_size = 500, budget = 0, fresh = 0\<rparr> =
     Some (Inr [], \<lparr>sim_apis = [], page_size = 500, budget = 0, fresh = 0\<rparr>,
           [Call (GetRestApis ''us-east-1'' None)])"
  by (rule get_apis_error[where client = "sim_plane plane_down", OF down_listing]) simp

lemma denied_set_up:
  "create_api 900 (sim_plane resources_denied) demo_pool ''us-east-1'' False
     \<lparr>sim_apis = [], page_size = 500, budget = 0, fresh = 0\<rparr> =
   Some (Inl (ClientError ''AccessDeniedException''),
         \<lparr>sim_apis = [(''us-east-1'', Api ''api0'' (Some ''IP Rotator for https://ipinfo.io''))],
           page_size = 500, budget = 0, fresh = 1\<rparr>,
         [Call (GetRestApis ''us-east-1'' None),
          Call (CreateRestApi ''us-east-1'' ''IP Rotator for https://ipinfo.io''),
          Call (GetResources ''us-east-1'' ''api0'')])"
  by (simp add: get_apis.simps sim_eval)

lemma listing_down_creates:
  "create_api 900 (sim_plane listing_down) demo_pool ''us-east-1'' False
     \<lparr>sim_apis = [(''us-east-1'', Api ''old'' (Some ''IP Rotator for https://ipinfo.io''))],
       page_size = 500, budget = 0, fresh = 0\<rparr> =
   Some (Inr (Some ''api0.execute-api.us-east-1.amazonaws.com''),
         \<lparr>sim_apis = [(''us-east-1'', Api ''old'' (Some ''IP Rotator for https://ipinfo.io'')),
                      (''us-east-1'', Api ''api0'' (Some ''IP Rotator for https://ipinfo.io''))],
           page_size = 500, budget = 0, fresh = 1\<rparr>,
         Call (GetRestApis ''us-east-1'' None) #
         Call (CreateRestApi ''us-east-1'' ''IP Rotator for https://ipinfo.io'') #
         setup_events demo_pool ''us-east-1'' ''api0'')"
  by (simp add: get_apis.simps sim_eval setup_events_def)

lemma start_loop_aborts:
  "start_loop demo_pool [Inr (Some ''e1''), Inl (ClientError ''AccessDeniedException''), Inr (Some ''e3'')] =
     (Inl (ClientError ''AccessDeniedException''), demo_pool\<lparr>endpoints := [''e1''], active := True\<rparr>)"
  by (simp add: consume_def demo_pool_def)

lemma throttled_listing:
  "create_api 900 (sim_plane throttle_all) demo_pool ''us-east-1'' False
     \<lparr>sim_apis = [], page_size = 500, budget = 1, fresh = 0\<rparr> =
   Some (Inr (Some ''api0.execute-api.us-east-1.amazonaws.com''),
         \<lparr>sim_apis = [(''us-east-1'', Api ''api0'' (Some ''IP Rotator for https://ipinfo.io''))],
           page_size = 500, budget = 0, fresh = 1\<rparr>,
         [Call (GetRestApis ''us-east-1'' None),
          Call (CreateRestApi ''us-east-1'' ''IP Rotator for https://ipinfo.io''),
          Call (GetResources ''us-east-1'' ''api0''),
          Call (CreateResource ''us-east-1'' ''api0'' ''root'' ''{proxy+}''),
          Call (PutMethod ''us-east-1'' ''api0'' ''root''),
          Call (PutIntegration ''us-east-1'' ''api0'' ''root'' ''https://ipinfo.io''),
          Call (PutMethod ''us-east-1'' ''api0'' ''proxy''),
          Call (PutIntegration ''us-east-1'' ''api0'' ''proxy'' ''https://ipinfo.io/{proxy}''),
          Call (CreateDeployment ''us-east-1'' ''api0'' ''proxy-stage'')])"
  by (simp add: get_apis.simps sim_eval)

subsection \<open>Listing and two runs on a plane without faults\<close>




lemma decode_le: "decode_position pos n \<le> n"
proof (cases pos)
  case None
  then show ?thesis by (simp add: decode_position_def)
next
  case (Some t)
  show ?thesis
  proof (cases "find (\<lambda>k. str_nat k = t) [0..<Suc n]")
    case None
    with Some show ?thesis by (simp add: decode_position_def del: upt_Suc)
  next
    case (Some k)
    then have "k \<in> set [0..<Suc n]" unfolding find_Some_iff by (metis nth_mem)
    then have "k \<le> n" by (simp del: upt_Suc)
    with Some \<open>pos = Some t\<close> show ?thesis by (simp add: decode_position_def del: upt_Suc)
  qed
qed














text \<open>
  Claim C1, as the code has it.  Let \<open>e\<close> be a connectivity failure or a
  control-plane error other than the rate-limit error.  If the creation call
  raises \<open>e\<close>, the provisioning call returns None and raises nothing, with
  \<open>force\<close> set or after a listing without a match.  If a listing call raises
  \<open>e\<close>, the listing helper returns the empty list, and the provisioning call
  goes on to the creation call.  A result None does not end the loop of the
  provisioning run.
\<close>

theorem creation_failure_absent:
  fixes client :: "'s plane"
  assumes "e = EndpointConnectionError \<or>
           (\<exists>code. e = ClientError code \<and> code \<noteq> ''TooManyRequestsException'')"
  shows "(client (CreateRestApi region (name self)) s = (Inl e, s1) \<longrightarrow>
            create_api depth client self region True s =
              Some (Inr None, s1, [Call (CreateRestApi region (name self))])) \<and>
         (get_apis client region None [] s = Some (Inr apis, s0, evs0) \<and>
          find (\<lambda>a. startswith (name_or_empty a) (name self)) apis = None \<and>
          client (CreateRestApi region (name self)) s0 = (Inl e, s1) \<longrightarrow>
            create_api depth client self region False s =
              Some (Inr None, s1, evs0 @ [Call (CreateRestApi region (name self))])) \<and>
         (client (GetRestApis region pos) s = (Inl e, s1) \<longrightarrow>
            get_apis client region pos acc s = Some (Inr [], s1, [Call (GetRestApis region pos)])) \<and>
         start_loop pool (Inr None # ts) = start_loop pool ts"
proof -
  have l: "is_client_or_connection_error e" using assms by auto
  show ?thesis
    using create_api_absent[OF try_block_force_error assms]
      create_api_absent[OF try_block_listed_error assms]
      get_apis_error[OF _ l]
    by (auto simp: consume_None)
qed

theorem creation_failure_absent_witness:
  "create_api 900 (sim_plane plane_down) demo_pool ''us-east-1'' True
      \<lparr>sim_apis = [], page_size = 500, budget = 0, fresh = 0\<rparr> =
     Some (Inr None, \<lparr>sim_apis = [], page_size = 500, budget = 0, fresh = 0\<rparr>,
           [Call (CreateRestApi ''us-east-1'' (name demo_pool))]) \<and>
   create_api 900 (sim_plane plane_down) demo_pool ''us-east-1'' False
      \<lparr>sim_apis = [], page_size = 500, budget = 0, fresh = 0\<rparr> =
     Some (Inr None, \<lparr>sim_apis = [], page_size = 500, budget = 0, fresh = 0\<rparr>,
           [Call (GetRestApis ''us-east-1'' None),
            Call (CreateRestApi ''us-east-1'' (name demo_pool))]) \<and>
   start_loop demo_pool [Inr None, Inr (Some ''e1'')] =
     (Inr (), demo_pool\<lparr>endpoints := [''e1''], active := True\<rparr>)"
  using creation_failure_absent[where client = "sim_plane plane_down" and e = EndpointConnectionError
      and self = demo_pool and region = "''us-east-1''" and pos = None and acc = "[]"
      and s = "\<lparr>sim_apis = [], page_size = 500, budget = 0, fresh = 0\<rparr>"
      and ?s0.0 = "\<lparr>sim_apis = [], page_size = 500, budget = 0, fresh = 0\<rparr>"
      and ?s1.0 = "\<lparr>sim_apis = [], page_size = 500, budget = 0, fresh = 0\<rparr>"
      and apis = "[]" and ?evs0.0 = "[Call (GetRestApis ''us-east-1'' None)]"
      and pool = demo_pool and ts = "[Inr (Some ''e1'')]" and depth = 900]
    down_create down_get_apis
  by (simp add: consume_def demo_pool_def)

text \<open>
  The claim as stated fails after the creation call.  The calls that set the new
  API up are outside the \<^verbatim>\<open>try\<close> statement: when \<^verbatim>\<open>get_resources\<close> is denied,
  the error leaves the provisioning call, and in \<^verbatim>\<open>start\<close> it ends the loop
  with the results of the remaining regions unread.  And a listing that fails
  does not give None when the creation then succeeds: a second API is created
  beside the existing one.
\<close>

theorem provision_raises_counterexample:
  "create_api 900 (sim_plane resources_denied) demo_pool ''us-east-1'' False
     \<lparr>sim_apis = [], page_size = 500, budget = 0, fresh = 0\<rparr> =
   Some (Inl (ClientError ''AccessDeniedException''),
         \<lparr>sim_apis = [(''us-east-1'', Api ''api0'' (Some ''IP Rotator for https://ipinfo.io''))],
           page_size = 500, budget = 0, fresh = 1\<rparr>,
         [Call (GetRestApis ''us-east-1'' None),
          Call (CreateRestApi ''us-east-1'' ''IP Rotator for https://ipinfo.io''),
          Call (GetResources ''us-east-1'' ''api0'')]) \<and>
   start_loop demo_pool
     [Inr (Some ''e1''), Inl (ClientError ''AccessDeniedException''), Inr (Some ''e3'')] =
     (Inl (ClientError ''AccessDeniedException''),
      demo_pool\<lparr>endpoints := [''e1''], active := True\<rparr>) \<and>
   create_api 900 (sim_plane listing_down) demo_pool ''us-east-1'' False
     \<lparr>sim_apis = [(''us-east-1'', Api ''old'' (Some ''IP Rotator for https://ipinfo.io''))],
       page_size = 500, budget = 0, fresh = 0\<rparr> =
   Some (Inr (Some ''api0.execute-api.us-east-1.amazonaws.com''),
         \<lparr>sim_apis = [(''us-east-1'', Api ''old'' (Some ''IP Rotator for https://ipinfo.io'')),
                      (''us-east-1'', Api ''api0'' (Some ''IP Rotator for https://ipinfo.io''))],
           page_size = 500, budget = 0, fresh = 1\<rparr>,
         Call (GetRestApis ''us-east-1'' None) #
         Call (CreateRestApi ''us-east-1'' ''IP Rotator for https://ipinfo.io'') #
         setup_events demo_pool ''us-east-1'' ''api0'')"
  using denied_set_up start_loop_aborts listing_down_creates by simp

text \<open>
  Claim C6, as the code has it.  Suppose the first \<open>n\<close> passes of a
  provisioning call through its \<^verbatim>\<open>try\<close> block each end in the rate-limit error
  (\<open>throttled\<close>).  Every such pass is followed by a sleep of 3 and by a nested
  call of the method with the same arguments; these are the only sleeps.  The
  code sets no limit to the retries, so they are bounded by the nesting the
  interpreter allows and by nothing else.  With at least \<open>n\<close> nested calls
  allowed, the call does what the pass after the \<open>n\<close> rate-limited ones does,
  after \<open>n\<close> sleeps: if that pass returns an endpoint, so does the call.
  With fewer allowed, the nested call that would exceed them raises
  RecursionError, which leaves the provisioning call.  A rate-limit error
  raised by a listing call does not reach the handler: the listing helper
  returns the empty list, without sleep or retry.
\<close>

theorem create_rate_limit_retry:
  fixes client :: "'s plane"
  assumes "throttled client self region force n s = Some (sn, evn)"
  shows
   "count_list evn (Sleep 3) = n \<and> (\<forall>d. Sleep d \<in> set evn \<longrightarrow> d = 3) \<and>
    (n \<le> depth \<longrightarrow>
       create_api depth client self region force s =
         Option.bind (create_api (depth - n) client self region force sn)
           (\<lambda>(r, s', evs). Some (r, s', evn @ evs))) \<and>
    (n \<le> depth \<and>
     create_api 0 client self region force sn = Some (Inr (Some address), s', evs') \<longrightarrow>
       create_api depth client self region force s = Some (Inr (Some address), s', evn @ evs')) \<and>
    (depth < n \<longrightarrow>
       (\<exists>sd evd. throttled client self region force (Suc depth) s = Some (sd, evd) \<and>
          create_api depth client self region force s = Some (Inl RecursionError, sd, evd))) \<and>
    (client (GetRestApis region pos) t = (Inl (ClientError ''TooManyRequestsException''), t1) \<longrightarrow>
       get_apis client region pos acc t = Some (Inr [], t1, [Call (GetRestApis region pos)]))"
proof -
  note a = throttled_sleeps[OF assms]
  have b: "n \<le> depth \<longrightarrow>
       create_api depth client self region force s =
         Option.bind (create_api (depth - n) client self region force sn)
           (\<lambda>(r, s', evs). Some (r, s', evn @ evs))"
    using throttled_create_api[OF assms] by blast
  have c: "create_api depth client self region force s = Some (Inr (Some address), s', evn @ evs')"
    if h: "n \<le> depth" "create_api 0 client self region force sn = Some (Inr (Some address), s', evs')"
  proof -
    have "create_api (depth - n) client self region force sn = Some (Inr (Some address), s', evs')"
      using h(2) by (rule create_api_no_retry) simp
    then show ?thesis unfolding throttled_create_api[OF assms h(1)] by simp
  qed
  have d: "\<exists>sd evd. throttled client self region force (Suc depth) s = Some (sd, evd) \<and>
          create_api depth client self region force s = Some (Inl RecursionError, sd, evd)"
    if h: "depth < n"
  proof -
    from h have "Suc depth \<le> n" by simp
    from throttled_prefix[OF assms this] obtain sd evd where
      t: "throttled client self region force (Suc depth) s = Some (sd, evd)" by blast
    from throttled_exhausted[OF t] t show ?thesis by blast
  qed
  have e: "client (GetRestApis region pos) t = (Inl (ClientError ''TooManyRequestsException''), t1) \<longrightarrow>
       get_apis client region pos acc t = Some (Inr [], t1, [Call (GetRestApis region pos)])"
    using get_apis_error[of client region pos t "ClientError ''TooManyRequestsException''" t1 acc]
    by simp
  show ?thesis using a b c d e by blast
qed

lemma throttled_twice:
  "throttled (sim_plane throttle_create) demo_pool ''us-east-1'' True 2
      \<lparr>sim_apis = [], page_size = 500, budget = 2, fresh = 0\<rparr> =
   Some (\<lparr>sim_apis = [], page_size = 500, budget = 0, fresh = 0\<rparr>,
         [Call (CreateRestApi ''us-east-1'' (name demo_pool)), Sleep 3,
          Call (CreateRestApi ''us-east-1'' (name demo_pool)), Sleep 3])"
  using sim_throttled[of demo_pool "''us-east-1''" True 2 500 0 0]
  by (simp add: listing_events_def numeral_2_eq_2)

lemma unthrottled_demo:
  "create_api 0 (sim_plane throttle_create) demo_pool ''us-east-1'' True
      \<lparr>sim_apis = [], page_size = 500, budget = 0, fresh = 0\<rparr> =
   Some (Inr (Some ''api0.execute-api.us-east-1.amazonaws.com''),
         \<lparr>sim_apis = [(''us-east-1'', Api ''api0'' (Some (name demo_pool)))], page_size = 500,
           budget = 0, fresh = 1\<rparr>,
         Call (CreateRestApi ''us-east-1'' (name demo_pool)) #
         setup_events demo_pool ''us-east-1'' ''api0'')"
  using sim_unthrottled[of 0 demo_pool "''us-east-1''" True 500 0]
  by (simp add: listing_events_def str_nat_small digit_simps api_address_def)

theorem create_rate_limit_retry_witness:
  "throttled (sim_plane throttle_create) demo_pool ''us-east-1'' True 2
      \<lparr>sim_apis = [], page_size = 500, budget = 2, fresh = 0\<rparr> =
   Some (\<lparr>sim_apis = [], page_size = 500, budget = 0, fresh = 0\<rparr>,
         [Call (CreateRestApi ''us-east-1'' (name demo_pool)), Sleep 3,
          Call (CreateRestApi ''us-east-1'' (name demo_pool)), Sleep 3]) \<and>
   create_api 900 (sim_plane throttle_create) demo_pool ''us-east-1'' True
      \<lparr>sim_apis = [], page_size = 500, budget = 2, fresh = 0\<rparr> =
     Some (Inr (Some ''api0.execute-api.us-east-1.amazonaws.com''),
           \<lparr>sim_apis = [(''us-east-1'', Api ''api0'' (Some (name demo_pool)))], page_size = 500,
             budget = 0, fresh = 1\<rparr>,
           [Call (CreateRestApi ''us-east-1'' (name demo_pool)), Sleep 3,
            Call (CreateRestApi ''us-east-1'' (name demo_pool)), Sleep 3] @
           Call (CreateRestApi ''us-east-1'' (name demo_pool)) #
           setup_events demo_pool ''us-east-1'' ''api0'')"
proof -
  have le: "(2 :: nat) \<le> 900" by simp
  from create_rate_limit_retry[where client = "sim_plane throttle_create" and depth = 900
      and address = "''api0.execute-api.us-east-1.amazonaws.com''"
      and s' = "\<lparr>sim_apis = [(''us-east-1'', Api ''api0'' (Some (name demo_pool)))],
                 page_size = 500, budget = 0, fresh = 1\<rparr>"
      and evs' = "Call (CreateRestApi ''us-east-1'' (name demo_pool)) #
                  setup_events demo_pool ''us-east-1'' ''api0''", OF throttled_twice]
    le unthrottled_demo
  have "create_api 900 (sim_plane throttle_create) demo_pool ''us-east-1'' True
      \<lparr>sim_apis = [], page_size = 500, budget = 2, fresh = 0\<rparr> =
     Some (Inr (Some ''api0.execute-api.us-east-1.amazonaws.com''),
           \<lparr>sim_apis = [(''us-east-1'', Api ''api0'' (Some (name demo_pool)))], page_size = 500,
             budget = 0, fresh = 1\<rparr>,
           [Call (CreateRestApi ''us-east-1'' (name demo_pool)), Sleep 3,
            Call (CreateRestApi ''us-east-1'' (name demo_pool)), Sleep 3] @
           Call (CreateRestApi ''us-east-1'' (name demo_pool)) #
           setup_events demo_pool ''us-east-1'' ''api0'')"
    by blast
  with throttled_twice show ?thesis by blast
qed

lemma throttled_beyond_depth:
  "create_api 989 (sim_plane throttle_create) demo_pool ''us-east-1'' True
      \<lparr>sim_apis = [], page_size = 500, budget = 990, fresh = 0\<rparr> =
   Some (Inl RecursionError, \<lparr>sim_apis = [], page_size = 500, budget = 0, fresh = 0\<rparr>,
         concat (replicate 990 [Call (CreateRestApi ''us-east-1'' (name demo_pool)), Sleep 3]))"
proof -
  have n: "Suc 989 = (990 :: nat)" by simp
  have "throttled (sim_plane throttle_create) demo_pool ''us-east-1'' True 990
      \<lparr>sim_apis = [], page_size = 500, budget = 990 + 0, fresh = 0\<rparr> =
   Some (\<lparr>sim_apis = [], page_size = 500, budget = 0, fresh = 0\<rparr>,
         concat (replicate 990 (listing_events ''us-east-1'' True @
                   [Call (CreateRestApi ''us-east-1'' (name demo_pool)), Sleep 3])))"
    by (rule sim_throttled)
  then have "throttled (sim_plane throttle_create) demo_pool ''us-east-1'' True (Suc 989)
      \<lparr>sim_apis = [], page_size = 500, budget = 990, fresh = 0\<rparr> =
   Some (\<lparr>sim_apis = [], page_size = 500, budget = 0, fresh = 0\<rparr>,
         concat (replicate 990 [Call (CreateRestApi ''us-east-1'' (name demo_pool)), Sleep 3]))"
    by (simp only: n listing_events_def if_True append_Nil add_0_right)
  then show ?thesis by (rule throttled_exhausted)
qed

text \<open>
  The claim as stated fails in two ways.  When the rate-limit error meets the
  listing there is no retry: against a plane that rate-limits one call and then
  none, a provisioning call with \<open>force = False\<close> has its listing call
  rate-limited, does not sleep, creates the API at once and returns its
  endpoint.  And the retries are not without limit: with 989 nested calls
  allowed and a creation call that is rate-limited 990 times and then no more,
  the provisioning call does not return the endpoint, it raises RecursionError
  after 990 sleeps.
\<close>

theorem listing_rate_limit_counterexample:
  "create_api 900 (sim_plane throttle_all) demo_pool ''us-east-1'' False
     \<lparr>sim_apis = [], page_size = 500, budget = 1, fresh = 0\<rparr> =
   Some (Inr (Some ''api0.execute-api.us-east-1.amazonaws.com''),
         \<lparr>sim_apis = [(''us-east-1'', Api ''api0'' (Some ''IP Rotator for https://ipinfo.io''))],
           page_size = 500, budget = 0, fresh = 1\<rparr>,
         [Call (GetRestApis ''us-east-1'' None),
          Call (CreateRestApi ''us-east-1'' ''IP Rotator for https://ipinfo.io''),
          Call (GetResources ''us-east-1'' ''api0''),
          Call (CreateResource ''us-east-1'' ''api0'' ''root'' ''{proxy+}''),
          Call (PutMethod ''us-east-1'' ''api0'' ''root''),
          Call (PutIntegration ''us-east-1'' ''api0'' ''root'' ''https://ipinfo.io''),
          Call (PutMethod ''us-east-1'' ''api0'' ''proxy''),
          Call (PutIntegration ''us-east-1'' ''api0'' ''proxy'' ''https://ipinfo.io/{proxy}''),
          Call (CreateDeployment ''us-east-1'' ''api0'' ''proxy-stage'')]) \<and>
   sim_plane throttle_all (GetRestApis ''us-east-1'' None)
     \<lparr>sim_apis = [], page_size = 500, budget = 1, fresh = 0\<rparr> =
   (Inl (ClientError ''TooManyRequestsException''),
    \<lparr>sim_apis = [], page_size = 500, budget = 0, fresh = 0\<rparr>) \<and>
   create_api 989 (sim_plane throttle_create) demo_pool ''us-east-1'' True
      \<lparr>sim_apis = [], page_size = 500, budget = 990, fresh = 0\<rparr> =
   Some (Inl RecursionError, \<lparr>sim_apis = [], page_size = 500, budget = 0, fresh = 0\<rparr>,
         concat (replicate 990 [Call (CreateRestApi ''us-east-1'' (name demo_pool)), Sleep 3]))"
  using throttled_listing throttled_beyond_depth by (simp add: sim_plane_def throttle_all_def)

section \<open>Teardown\<close>

lemma clear_region_apis_unfold:
  "clear_region_apis depth client self region force s =
     clear_region_apis_body
       (case depth of
          0 \<Rightarrow> (\<lambda>s2. Some (Inl RecursionError, s2, []))
        | Suc d \<Rightarrow> clear_region_apis d client self region force)
       client self region force s"
  by (cases depth) simp_all

lemma close_demo:
  "close 900 (sim_plane healthy)
     (demo_pool\<lparr>endpoints := [''api0.execute-api.us-east-1.amazonaws.com''], active := True\<rparr>)
     region_catalog
     \<lparr>sim_apis = [(''us-east-1'', Api ''api0'' (Some ''IP Rotator for https://ipinfo.io''))],
       page_size = 500, budget = 0, fresh = 1\<rparr> =
   Some (Inr (),
         demo_pool\<lparr>endpoints := [''api0.execute-api.us-east-1.amazonaws.com''], active := False,
           closed := True\<rparr>,
         \<lparr>sim_apis = [], page_size = 500, budget = 0, fresh = 1\<rparr>,
         Call (GetRestApis ''us-east-1'' None) # Call (DeleteRestApi ''us-east-1'' ''api0'') #
         map (\<lambda>r. Call (GetRestApis r None)) (tl region_catalog))"
  by (simp add: close_def clear_apis_def clear_region_apis_unfold clear_region_apis_body_def
      get_apis.simps sim_eval region_catalog_def)

text \<open>
  Claim C2, as the code has it.  When \<^verbatim>\<open>close\<close> completes, the pool is inactive,
  its HTTP session is closed and its endpoint list is what it was before:
  nothing in \<^verbatim>\<open>close\<close> or below it assigns to \<^verbatim>\<open>self.endpoints\<close>.  This holds
  whatever the deletions did.  When \<^verbatim>\<open>close\<close> raises, the pool is unchanged.
\<close>

theorem close_leaves_endpoints:
  assumes "close depth client self order s = Some (r, self', s', evs)"
  shows "(r = Inr () \<longrightarrow> \<not> active self' \<and> closed self' \<and> endpoints self' = endpoints self) \<and>
         (\<forall>e. r = Inl e \<longrightarrow> self' = self)"
  using assms by (auto simp: close_def split: option.splits sum.splits prod.splits)

theorem close_leaves_endpoints_witness:
  "close 900 (sim_plane healthy)
     (demo_pool\<lparr>endpoints := [''api0.execute-api.us-east-1.amazonaws.com''], active := True\<rparr>)
     region_catalog
     \<lparr>sim_apis = [(''us-east-1'', Api ''api0'' (Some ''IP Rotator for https://ipinfo.io''))],
       page_size = 500, budget = 0, fresh = 1\<rparr> =
   Some (Inr (),
         demo_pool\<lparr>endpoints := [''api0.execute-api.us-east-1.amazonaws.com''], active := False,
           closed := True\<rparr>,
         \<lparr>sim_apis = [], page_size = 500, budget = 0, fresh = 1\<rparr>,
         Call (GetRestApis ''us-east-1'' None) # Call (DeleteRestApi ''us-east-1'' ''api0'') #
         map (\<lambda>r. Call (GetRestApis r None)) (tl region_catalog)) \<and>
   \<not> active (demo_pool\<lparr>endpoints := [''api0.execute-api.us-east-1.amazonaws.com''],
                 active := False, closed := True\<rparr>) \<and>
   endpoints (demo_pool\<lparr>endpoints := [''api0.execute-api.us-east-1.amazonaws.com''],
                 active := False, closed := True\<rparr>) =
   endpoints (demo_pool\<lparr>endpoints := [''api0.execute-api.us-east-1.amazonaws.com''],
                 active := True\<rparr>)"
  using close_leaves_endpoints[OF close_demo] close_demo by simp

text \<open>
  The claim as stated fails: after a teardown that deleted the pool's only API,
  the endpoint list still holds the address of that API.
\<close>

theorem close_clears_endpoints_counterexample:
  "close 900 (sim_plane healthy)
     (demo_pool\<lparr>endpoints := [''api0.execute-api.us-east-1.amazonaws.com''], active := True\<rparr>)
     region_catalog
     \<lparr>sim_apis = [(''us-east-1'', Api ''api0'' (Some ''IP Rotator for https://ipinfo.io''))],
       page_size = 500, budget = 0, fresh = 1\<rparr> =
   Some (Inr (),
         demo_pool\<lparr>endpoints := [''api0.execute-api.us-east-1.amazonaws.com''], active := False,
           closed := True\<rparr>,
         \<lparr>sim_apis = [], page_size = 500, budget = 0, fresh = 1\<rparr>,
         Call (GetRestApis ''us-east-1'' None) # Call (DeleteRestApi ''us-east-1'' ''api0'') #
         map (\<lambda>r. Call (GetRestApis r None)) (tl region_catalog)) \<and>
   endpoints (demo_pool\<lparr>endpoints := [''api0.execute-api.us-east-1.amazonaws.com''],
                 active := False, closed := True\<rparr>) \<noteq> []"
  using close_demo by simp

end
